theory Spec2Isabelle
  imports Main
begin

section \<open>The MCP gateway manager (src/mcp-gateway.ts)\<close>

text \<open>
  The module keeps a registry of managed gateways (a JavaScript \<^verbatim>\<open>Map\<close> from gateway
  name to a mutable \<^verbatim>\<open>ManagedGateway\<close> object), spawns a helper process for every
  \<^verbatim>\<open>stdio\<close> gateway, restarts it with exponential backoff when it closes, probes every
  gateway over HTTP and publishes the healthy ones.

  The embedding follows the module function by function. Mutable objects live in an
  explicit store, since the event handlers of a child process and the restart timers
  close over the \<^verbatim>\<open>ManagedGateway\<close> object itself and keep mutating it after the registry
  has dropped it. A rejected promise or a thrown exception is the \<open>Inl\<close> branch of a sum.
\<close>

subsection \<open>Data model\<close>

datatype gateway_type = Stdio | Http

text \<open>
  \<^verbatim>\<open>interface McpGatewayEntry\<close>. An optional field is an \<open>option\<close>, \<open>None\<close> standing for
  \<^verbatim>\<open>undefined\<close>. The field \<^verbatim>\<open>type\<close> is called \<open>gtype\<close>, \<^verbatim>\<open>port\<close> is a non-negative
  integer.
\<close>

record McpGatewayEntry =
  name :: string
  gtype :: gateway_type
  command :: "string option"
  args :: "string list option"
  env :: "(string \<times> string) list option"
  port :: "nat option"
  url :: "string option"
  optional :: "bool option"
  description :: "string option"

type_synonym pid = nat   \<comment> \<open>a \<^verbatim>\<open>ChildProcess\<close> handle\<close>
type_synonym tid = nat   \<comment> \<open>a timer handle\<close>
type_synonym ref = nat   \<comment> \<open>the address of a \<^verbatim>\<open>ManagedGateway\<close> object\<close>

text \<open>\<^verbatim>\<open>interface ManagedGateway\<close>; the field \<^verbatim>\<open>process\<close> is called \<open>proc\<close>.\<close>

record ManagedGateway =
  entry :: McpGatewayEntry
  proc :: "pid option"
  healthy :: bool
  restartCount :: nat
  restartTimer :: "tid option"

definition MAX_RESTART_DELAY :: nat where
  "MAX_RESTART_DELAY = 60000"

definition HEALTH_CHECK_INTERVAL :: nat where
  "HEALTH_CHECK_INTERVAL = 30000"

subsection \<open>Restart backoff\<close>

text \<open>
  JavaScript numbers are IEEE doubles. On the values reached here the arithmetic is
  exact except for overflow: \<^verbatim>\<open>Math.pow(2, n)\<close> is the exact power for \<open>n < 1024\<close> and
  \<^verbatim>\<open>Infinity\<close> from there on, and \<^verbatim>\<open>1000 * 2^n = 125 * 2^(n+3)\<close> has a seven-bit mantissa,
  so the product is exact whenever it is below \<open>2^1024\<close> and \<^verbatim>\<open>Infinity\<close> otherwise.
\<close>

datatype js_number = Finite nat | PosInfinity

definition Math_pow2 :: "nat \<Rightarrow> js_number" where
  "Math_pow2 n = (if n < 1024 then Finite (2 ^ n) else PosInfinity)"

definition js_times :: "nat \<Rightarrow> js_number \<Rightarrow> js_number" where
  "js_times k x =
     (case x of
        Finite v \<Rightarrow> if k * v < 2 ^ 1024 then Finite (k * v) else PosInfinity
      | PosInfinity \<Rightarrow> PosInfinity)"

definition Math_min :: "js_number \<Rightarrow> nat \<Rightarrow> nat" where
  "Math_min x b = (case x of Finite v \<Rightarrow> min v b | PosInfinity \<Rightarrow> b)"

definition getRestartDelay :: "nat \<Rightarrow> nat" where
  "getRestartDelay restartCount' =
     Math_min (js_times 1000 (Math_pow2 restartCount')) MAX_RESTART_DELAY"

subsection \<open>Strings and URLs\<close>

text \<open>
  \<^verbatim>\<open>String.prototype.replace\<close> with a string pattern replaces the first occurrence only.
  The replacement used by the module holds no dollar sign, so it is inserted literally.
\<close>

fun js_replace :: "string \<Rightarrow> string \<Rightarrow> string \<Rightarrow> string" where
  "js_replace pat rep [] = (if pat = [] then rep else [])"
| "js_replace pat rep (c # cs) =
     (if take (length pat) (c # cs) = pat then rep @ drop (length pat) (c # cs)
      else c # js_replace pat rep cs)"

definition digit_char :: "nat \<Rightarrow> char" where
  "digit_char d = ''0123456789'' ! d"

text \<open>The decimal text of a non-negative integer, as a template literal prints it.\<close>

fun String_of_nat :: "nat \<Rightarrow> string" where
  "String_of_nat n =
     (if n < 10 then [digit_char n] else String_of_nat (n div 10) @ [digit_char (n mod 10)])"

declare String_of_nat.simps [simp del]

text \<open>An optional string inside a template literal or given to \<^verbatim>\<open>new URL\<close>.\<close>

definition js_string :: "string option \<Rightarrow> string" where
  "js_string v = (case v of None \<Rightarrow> ''undefined'' | Some s \<Rightarrow> s)"

definition getGatewayUrl :: "McpGatewayEntry \<Rightarrow> string option" where
  "getGatewayUrl e =
     (if gtype e = Http then url e
      else Some (''http://127.0.0.1:'' @ js_string (map_option String_of_nat (port e)) @ ''/sse''))"

text \<open>What \<^verbatim>\<open>healthCheck\<close> reads of a parsed URL.\<close>

record parsed_url =
  url_hostname :: string
  url_port :: string
  url_pathname :: string

datatype http_outcome = Response nat | TransportError | Timeout

datatype js_error = TypeError string

text \<open>
  The platform the module runs on: \<open>URL_parse\<close> is \<^verbatim>\<open>new URL(s)\<close>, \<open>None\<close> when the
  constructor throws; \<open>http_get\<close> is what one \<^verbatim>\<open>http.get\<close> with a 5000 ms timeout meets,
  a response with its status, an \<^verbatim>\<open>error\<close> event or a \<^verbatim>\<open>timeout\<close> event.
\<close>

record platform =
  URL_parse :: "string \<Rightarrow> parsed_url option"
  http_get :: "parsed_url \<Rightarrow> http_outcome"

text \<open>
  The promise executor runs \<^verbatim>\<open>new URL(url)\<close> first; an exception thrown by an executor
  rejects the promise. Every later path resolves it.
\<close>

definition healthCheck :: "platform \<Rightarrow> string \<Rightarrow> js_error + bool" where
  "healthCheck P url' =
     (case URL_parse P url' of
        None \<Rightarrow> Inl (TypeError ''Invalid URL'')
      | Some parsedUrl \<Rightarrow>
          (case http_get P parsedUrl of
             Response status \<Rightarrow> Inr True
           | TransportError \<Rightarrow> Inr False
           | Timeout \<Rightarrow> Inr False))"

subsection \<open>The supervisor state\<close>

datatype level = LDebug | LInfo | LWarn | LError

type_synonym log_entry = "level \<times> string option \<times> string"

text \<open>
  \<open>heap\<close> holds the \<^verbatim>\<open>ManagedGateway\<close> objects, \<open>managedGateways\<close> is the \<^verbatim>\<open>Map\<close> in
  insertion order, \<open>children\<close> are the live child processes, each with the object its
  \<^verbatim>\<open>close\<close> and \<^verbatim>\<open>error\<close> listeners close over, \<open>timers\<close> are the pending one-shot restart
  timers, each with the object its callback closes over and its delay, \<open>intervals\<close> the
  running interval timers with their period, \<open>signalled\<close> the processes that were sent
  \<^verbatim>\<open>SIGTERM\<close>.
\<close>

record world =
  heap :: "ref \<rightharpoonup> ManagedGateway"
  next_ref :: ref
  managedGateways :: "(string \<times> ref) list"
  healthCheckTimer :: "tid option"
  children :: "(pid \<times> ref) list"
  timers :: "(tid \<times> ref \<times> nat) list"
  intervals :: "(tid \<times> nat) list"
  next_pid :: pid
  next_tid :: tid
  signalled :: "pid list"
  log :: "log_entry list"

definition init_world :: world where
  "init_world =
     \<lparr>heap = Map.empty, next_ref = 0, managedGateways = [], healthCheckTimer = None,
      children = [], timers = [], intervals = [], next_pid = 0, next_tid = 0,
      signalled = [], log = []\<rparr>"

definition logger :: "level \<Rightarrow> string option \<Rightarrow> string \<Rightarrow> world \<Rightarrow> world" where
  "logger lvl gw msg w = w\<lparr>log := log w @ [(lvl, gw, msg)]\<rparr>"

text \<open>\<^verbatim>\<open>Map.prototype.set\<close>: an existing key keeps its place, a new key goes last.\<close>

fun Map_set :: "'k \<Rightarrow> 'v \<Rightarrow> ('k \<times> 'v) list \<Rightarrow> ('k \<times> 'v) list" where
  "Map_set k v [] = [(k, v)]"
| "Map_set k v ((k', v') # kvs) =
     (if k' = k then (k, v) # kvs else (k', v') # Map_set k v kvs)"

definition setTimeout :: "ref \<Rightarrow> nat \<Rightarrow> world \<Rightarrow> tid \<times> world" where
  "setTimeout r delay w =
     (next_tid w, w\<lparr>timers := timers w @ [(next_tid w, r, delay)], next_tid := Suc (next_tid w)\<rparr>)"

definition clearTimeout :: "tid \<Rightarrow> world \<Rightarrow> world" where
  "clearTimeout t w = w\<lparr>timers := filter (\<lambda>x. fst x \<noteq> t) (timers w)\<rparr>"

definition setInterval :: "nat \<Rightarrow> world \<Rightarrow> tid \<times> world" where
  "setInterval period w =
     (next_tid w,
      w\<lparr>intervals := intervals w @ [(next_tid w, period)], next_tid := Suc (next_tid w)\<rparr>)"

definition clearInterval :: "tid \<Rightarrow> world \<Rightarrow> world" where
  "clearInterval t w = w\<lparr>intervals := filter (\<lambda>x. fst x \<noteq> t) (intervals w)\<rparr>"

subsection \<open>Configuration\<close>

text \<open>
  \<^verbatim>\<open>JSON.parse\<close> returns whatever the file holds and \<^verbatim>\<open>loadConfig\<close> does not look at its
  shape. \<open>CfgFalsy\<close> is a falsy value (\<^verbatim>\<open>null\<close>, \<^verbatim>\<open>false\<close>, \<^verbatim>\<open>0\<close>, the empty string),
  \<open>CfgNoGateways\<close> a truthy value whose property \<^verbatim>\<open>gateways\<close> is undefined (such as
  \<^verbatim>\<open>{}\<close>), \<open>CfgGateways\<close> an object whose \<^verbatim>\<open>gateways\<close> is an array of entries.
  \<open>FileUnparsable\<close> is a file that \<^verbatim>\<open>readFileSync\<close> or \<^verbatim>\<open>JSON.parse\<close> throws on.
\<close>

datatype js_config = CfgFalsy | CfgNoGateways | CfgGateways "McpGatewayEntry list"

datatype config_file = FileAbsent | FileUnparsable | FileParsed js_config

definition loadConfig :: "config_file \<Rightarrow> world \<Rightarrow> js_config option \<times> world" where
  "loadConfig f w =
     (case f of
        FileAbsent \<Rightarrow> (None, logger LInfo None ''No MCP gateway config found, skipping'' w)
      | FileUnparsable \<Rightarrow> (None, logger LError None ''Failed to parse MCP gateway config'' w)
      | FileParsed c \<Rightarrow> (Some c, w))"

subsection \<open>Child processes\<close>

text \<open>
  \<^verbatim>\<open>spawnSupergateway\<close> resolves the command paths, builds the argument list and the
  environment, logs and spawns. Of these only the log line and the new process handle
  reach the supervisor state.
\<close>

definition spawnSupergateway :: "McpGatewayEntry \<Rightarrow> world \<Rightarrow> pid \<times> world" where
  "spawnSupergateway e w =
     (next_pid w,
      (logger LInfo (Some (name e)) ''Spawning supergateway'' w)\<lparr>next_pid := Suc (next_pid w)\<rparr>)"

text \<open>The \<^verbatim>\<open>close\<close> listener that \<^verbatim>\<open>startGatewayProcess\<close> installs, for the object at \<open>r\<close>.\<close>

definition on_close :: "ref \<Rightarrow> world \<Rightarrow> world" where
  "on_close r w =
     (case heap w r of
        None \<Rightarrow> w
      | Some managed \<Rightarrow>
          let gw = Some (name (entry managed));
              w1 = logger LWarn gw ''Supergateway process exited'' w;
              m1 = managed\<lparr>healthy := False, proc := None\<rparr>;
              delay = getRestartDelay (restartCount m1);
              m2 = m1\<lparr>restartCount := restartCount m1 + 1\<rparr>;
              w2 = logger LInfo gw ''Scheduling gateway restart'' w1;
              (t, w3) = setTimeout r delay w2
          in w3\<lparr>heap := (heap w3)(r \<mapsto> m2\<lparr>restartTimer := Some t\<rparr>)\<rparr>)"

text \<open>The \<^verbatim>\<open>error\<close> listener.\<close>

definition on_error :: "ref \<Rightarrow> world \<Rightarrow> world" where
  "on_error r w =
     (case heap w r of
        None \<Rightarrow> w
      | Some managed \<Rightarrow>
          let w1 = logger LError (Some (name (entry managed))) ''Supergateway spawn error'' w
          in w1\<lparr>heap := (heap w1)(r \<mapsto> managed\<lparr>healthy := False\<rparr>)\<rparr>)"

definition startGatewayProcess :: "ref \<Rightarrow> world \<Rightarrow> world" where
  "startGatewayProcess r w =
     (case heap w r of
        None \<Rightarrow> w
      | Some managed \<Rightarrow>
          if gtype (entry managed) \<noteq> Stdio then w
          else let (p, w1) = spawnSupergateway (entry managed) w
               in w1\<lparr>heap := (heap w1)(r \<mapsto> managed\<lparr>proc := Some p\<rparr>),
                     children := children w1 @ [(p, r)]\<rparr>)"

subsection \<open>Listener events\<close>

text \<open>
  The event loop delivers one event at a time. A child process emits \<^verbatim>\<open>close\<close> once and
  is gone; \<^verbatim>\<open>error\<close> leaves it among the children, since \<^verbatim>\<open>close\<close> follows. A one-shot
  timer that fires is no longer pending and runs \<^verbatim>\<open>startGatewayProcess\<close> on its object.
\<close>

definition deliver_close :: "pid \<Rightarrow> world \<Rightarrow> world" where
  "deliver_close p w =
     (case map_of (children w) p of
        None \<Rightarrow> w
      | Some r \<Rightarrow> on_close r (w\<lparr>children := filter (\<lambda>x. fst x \<noteq> p) (children w)\<rparr>))"

definition deliver_error :: "pid \<Rightarrow> world \<Rightarrow> world" where
  "deliver_error p w = (case map_of (children w) p of None \<Rightarrow> w | Some r \<Rightarrow> on_error r w)"

definition fire_timer :: "tid \<Rightarrow> world \<Rightarrow> world" where
  "fire_timer t w =
     (case map_of (timers w) t of
        None \<Rightarrow> w
      | Some (r, delay) \<Rightarrow>
          startGatewayProcess r (w\<lparr>timers := filter (\<lambda>x. fst x \<noteq> t) (timers w)\<rparr>))"

datatype listener_event = Close pid | Error pid | Timer tid

fun deliver :: "listener_event \<Rightarrow> world \<Rightarrow> world" where
  "deliver (Close p) w = deliver_close p w"
| "deliver (Error p) w = deliver_error p w"
| "deliver (Timer t) w = fire_timer t w"

fun deliver_all :: "listener_event list \<Rightarrow> world \<Rightarrow> world" where
  "deliver_all [] w = w"
| "deliver_all (e # es) w = deliver_all es (deliver e w)"

subsection \<open>The health pass\<close>

datatype completion = Fulfilled | Rejected js_error

text \<open>
  One turn of the loop of \<^verbatim>\<open>checkAllHealth\<close>, for the registry entry \<open>(name', r)\<close>. The
  turn reads the address and \<^verbatim>\<open>wasHealthy\<close>, then suspends at \<^verbatim>\<open>await healthCheck(url)\<close>;
  the listener events \<open>during\<close> are delivered while it is suspended. \<open>check_write\<close> is the
  rest of the turn, run when the probe has resolved with \<open>h\<close>: it writes the object the
  turn holds, as the events left it.
\<close>

definition check_write :: "string \<Rightarrow> bool \<Rightarrow> bool \<Rightarrow> ref \<Rightarrow> world \<Rightarrow> world" where
  "check_write name' wasHealthy h r w =
     (case heap w r of
        None \<Rightarrow> w
      | Some managed \<Rightarrow>
          let m1 = managed\<lparr>healthy := h\<rparr>
          in if h \<and> \<not> wasHealthy then
               logger LInfo (Some name') ''MCP gateway became healthy''
                 (w\<lparr>heap := (heap w)(r \<mapsto> m1\<lparr>restartCount := 0\<rparr>)\<rparr>)
             else if \<not> h \<and> wasHealthy then
               (if optional (entry managed) = Some True then
                  logger LWarn (Some name') ''Optional MCP gateway became unhealthy''
                    (w\<lparr>heap := (heap w)(r \<mapsto> m1)\<rparr>)
                else
                  logger LError (Some name') ''MCP gateway became unhealthy''
                    (w\<lparr>heap := (heap w)(r \<mapsto> m1)\<rparr>))
             else w\<lparr>heap := (heap w)(r \<mapsto> m1)\<rparr>)"

definition check_one ::
  "platform \<Rightarrow> listener_event list \<Rightarrow> string \<Rightarrow> ref \<Rightarrow> world \<Rightarrow> completion \<times> world"
where
  "check_one P during name' r w =
     (case heap w r of
        None \<Rightarrow> (Fulfilled, deliver_all during w)
      | Some managed \<Rightarrow>
          let url' = getGatewayUrl (entry managed);
              wasHealthy = healthy managed;
              w1 = deliver_all during w
          in (case healthCheck P (js_string url') of
                Inl err \<Rightarrow> (Rejected err, w1)
              | Inr h \<Rightarrow> (Fulfilled, check_write name' wasHealthy h r w1)))"

text \<open>
  The loop, with the events delivered during each turn's probe: \<open>sched\<close> holds one list
  of events per turn, and a turn beyond its end meets none. Listener events do not touch
  the registry, so the loop runs over the entries it began with; a startup or a shutdown
  in the middle of a pass is not modelled.
\<close>

fun checkAllHealth_loop ::
  "platform \<Rightarrow> listener_event list list \<Rightarrow> (string \<times> ref) list \<Rightarrow> world \<Rightarrow> completion \<times> world"
where
  "checkAllHealth_loop P sched [] w = (Fulfilled, w)"
| "checkAllHealth_loop P sched ((name', r) # rest) w =
     (case check_one P (case sched of [] \<Rightarrow> [] | during # _ \<Rightarrow> during) name' r w of
        (Rejected err, w') \<Rightarrow> (Rejected err, w')
      | (Fulfilled, w') \<Rightarrow> checkAllHealth_loop P (tl sched) rest w')"

definition checkAllHealth_during ::
  "platform \<Rightarrow> listener_event list list \<Rightarrow> world \<Rightarrow> completion \<times> world"
where
  "checkAllHealth_during P sched w = checkAllHealth_loop P sched (managedGateways w) w"

text \<open>A health pass with nothing delivered while its probes are awaited.\<close>

definition checkAllHealth :: "platform \<Rightarrow> world \<Rightarrow> completion \<times> world" where
  "checkAllHealth P w = checkAllHealth_during P [] w"

subsection \<open>Startup and shutdown\<close>

definition falsy_string :: "string option \<Rightarrow> bool" where
  "falsy_string v = (v = None \<or> v = Some [])"

definition falsy_number :: "nat option \<Rightarrow> bool" where
  "falsy_number v = (v = None \<or> v = Some 0)"

text \<open>One turn of the first loop of \<^verbatim>\<open>startMcpGateways\<close>.\<close>

definition register_entry :: "McpGatewayEntry \<Rightarrow> world \<Rightarrow> world" where
  "register_entry e w =
     (let r = next_ref w;
          managed = \<lparr>entry = e, proc = None, healthy = False, restartCount = 0,
                     restartTimer = None\<rparr>;
          w1 = w\<lparr>heap := (heap w)(r \<mapsto> managed), next_ref := Suc r,
                 managedGateways := Map_set (name e) r (managedGateways w)\<rparr>
      in if gtype e = Stdio then
           (if falsy_string (command e) \<or> falsy_number (port e) then
              logger LError (Some (name e)) ''stdio gateway missing command or port, skipping'' w1
            else startGatewayProcess r w1)
         else w1)"

fun start_loop :: "McpGatewayEntry list \<Rightarrow> world \<Rightarrow> world" where
  "start_loop [] w = w"
| "start_loop (e # es) w = start_loop es (register_entry e w)"

text \<open>The summary loop after the first health pass.\<close>

fun summary_loop :: "(string \<times> ref) list \<Rightarrow> world \<Rightarrow> world" where
  "summary_loop [] w = w"
| "summary_loop ((name', r) # rest) w =
     (case heap w r of
        None \<Rightarrow> summary_loop rest w
      | Some managed \<Rightarrow>
          if healthy managed then
            summary_loop rest (logger LInfo (Some name') ''MCP gateway started'' w)
          else if optional (entry managed) = Some True then
            summary_loop rest (logger LWarn (Some name') ''Optional MCP gateway not available'' w)
          else
            summary_loop rest (logger LError (Some name') ''Required MCP gateway failed to start'' w))"

text \<open>
  \<^verbatim>\<open>startMcpGateways\<close>, with no event delivered while it waits. Reading \<^verbatim>\<open>length\<close> of an
  undefined \<^verbatim>\<open>gateways\<close> throws, and so does a rejected health pass at its \<^verbatim>\<open>await\<close>:
  both reject the promise the function returns.
\<close>

definition startMcpGateways :: "platform \<Rightarrow> config_file \<Rightarrow> world \<Rightarrow> completion \<times> world" where
  "startMcpGateways P f w =
     (case loadConfig f w of
        (None, w0) \<Rightarrow> (Fulfilled, w0)
      | (Some CfgFalsy, w0) \<Rightarrow> (Fulfilled, w0)
      | (Some CfgNoGateways, w0) \<Rightarrow>
          (Rejected (TypeError ''Cannot read properties of undefined (reading length)''), w0)
      | (Some (CfgGateways gateways), w0) \<Rightarrow>
          if length gateways = 0 then (Fulfilled, w0)
          else
            (case checkAllHealth P (start_loop gateways w0) of
               (Rejected err, w2) \<Rightarrow> (Rejected err, w2)
             | (Fulfilled, w2) \<Rightarrow>
                 let w3 = summary_loop (managedGateways w2) w2;
                     (t, w4) = setInterval HEALTH_CHECK_INTERVAL w3
                 in (Fulfilled, w4\<lparr>healthCheckTimer := Some t\<rparr>)))"

fun stop_loop :: "(string \<times> ref) list \<Rightarrow> world \<Rightarrow> world" where
  "stop_loop [] w = w"
| "stop_loop ((name', r) # rest) w =
     (case heap w r of
        None \<Rightarrow> stop_loop rest w
      | Some managed \<Rightarrow>
          let w1 = (case restartTimer managed of None \<Rightarrow> w | Some t \<Rightarrow> clearTimeout t w);
              w2 = (case proc managed of
                      None \<Rightarrow> w1
                    | Some p \<Rightarrow>
                        (logger LInfo (Some name') ''Stopping MCP gateway'' w1)
                          \<lparr>signalled := signalled w1 @ [p]\<rparr>)
          in stop_loop rest w2)"

definition stopMcpGateways :: "world \<Rightarrow> completion \<times> world" where
  "stopMcpGateways w =
     (let w1 = (case healthCheckTimer w of
                  None \<Rightarrow> w
                | Some t \<Rightarrow> (clearInterval t w)\<lparr>healthCheckTimer := None\<rparr>);
          w2 = stop_loop (managedGateways w1) w1
      in (Fulfilled, w2\<lparr>managedGateways := []\<rparr>))"

subsection \<open>The published directory\<close>

fun getAvailableGateways_loop ::
  "(string \<times> ref) list \<Rightarrow> world \<Rightarrow> (string \<times> string) list \<Rightarrow> js_error + (string \<times> string) list"
where
  "getAvailableGateways_loop [] w results = Inr results"
| "getAvailableGateways_loop ((name', r) # rest) w results =
     (case heap w r of
        None \<Rightarrow> getAvailableGateways_loop rest w results
      | Some managed \<Rightarrow>
          if \<not> healthy managed then getAvailableGateways_loop rest w results
          else
            (case getGatewayUrl (entry managed) of
               None \<Rightarrow> Inl (TypeError ''Cannot read properties of undefined (reading replace)'')
             | Some u \<Rightarrow>
                 getAvailableGateways_loop rest w
                   (results @ [(name', js_replace ''127.0.0.1'' ''host.docker.internal'' u)])))"

definition getAvailableGateways :: "world \<Rightarrow> js_error + (string \<times> string) list" where
  "getAvailableGateways w = getAvailableGateways_loop (managedGateways w) w []"

subsection \<open>Events\<close>

datatype event =
    EvStart platform config_file
  | EvRegister "McpGatewayEntry list"
  | EvHealth platform "listener_event list list"
  | EvStop
  | EvListener listener_event

text \<open>
  \<open>EvStart\<close> is a whole \<^verbatim>\<open>startMcpGateways\<close> with nothing delivered while it waits;
  \<open>EvRegister\<close> is its first loop alone and \<open>EvHealth\<close> one health pass alone, with the
  listener events delivered during its probes, so that other events can come between and
  within them.
\<close>

fun step :: "event \<Rightarrow> world \<Rightarrow> world" where
  "step (EvStart P f) w = snd (startMcpGateways P f w)"
| "step (EvRegister es) w = start_loop es w"
| "step (EvHealth P sched) w = snd (checkAllHealth_during P sched w)"
| "step EvStop w = snd (stopMcpGateways w)"
| "step (EvListener e) w = deliver e w"

fun run :: "event list \<Rightarrow> world \<Rightarrow> world" where
  "run [] w = w"
| "run (e # es) w = run es (step e w)"

text \<open>
  What is outstanding for the object at \<open>r\<close>: its live child processes and its pending
  restart timers.
\<close>

definition children_of :: "ref \<Rightarrow> world \<Rightarrow> (pid \<times> ref) list" where
  "children_of r w = filter (\<lambda>x. snd x = r) (children w)"

definition timers_of :: "ref \<Rightarrow> world \<Rightarrow> (tid \<times> ref \<times> nat) list" where
  "timers_of r w = filter (\<lambda>x. fst (snd x) = r) (timers w)"

definition pending :: "ref \<Rightarrow> world \<Rightarrow> nat" where
  "pending r w = length (children_of r w) + length (timers_of r w)"

definition fresh_refs :: "world \<Rightarrow> bool" where
  "fresh_refs w =
     (list_all (\<lambda>x. snd x < next_ref w) (children w)
      \<and> list_all (\<lambda>x. fst (snd x) < next_ref w) (timers w))"

definition one_outstanding :: "world \<Rightarrow> bool" where
  "one_outstanding w = (fresh_refs w \<and> (\<forall>r. pending r w \<le> 1))"

subsection \<open>A platform and declarations to run the model on\<close>

text \<open>
  \<open>sse_URL\<close> is the URL constructor on the strings that \<^verbatim>\<open>getGatewayUrl\<close> builds for a
  \<^verbatim>\<open>stdio\<close> gateway, \<^verbatim>\<open>http://127.0.0.1:\<close> then a port text \<open>p\<close> of letters and digits then
  \<^verbatim>\<open>/sse\<close>: the port state of the URL parser accepts decimal digits up to 65535 and fails
  on any other character, as at the port text \<^verbatim>\<open>undefined\<close>. It drops leading zeros
  and the default port 80. No other shape of string is given to it below.
\<close>

definition is_digit :: "char \<Rightarrow> bool" where
  "is_digit c = (c \<in> set ''0123456789'')"

definition digit_value :: "char \<Rightarrow> nat" where
  "digit_value c = length (takeWhile (\<lambda>d. d \<noteq> c) ''0123456789'')"

definition digits_value :: "string \<Rightarrow> nat" where
  "digits_value ds = foldl (\<lambda>a c. 10 * a + digit_value c) 0 ds"

definition sse_URL :: "string \<Rightarrow> parsed_url option" where
  "sse_URL s =
     (let p = take (length s - 21) (drop 17 s);
          q = dropWhile (\<lambda>c. c = CHR ''0'') p
      in if s = ''http://127.0.0.1:'' @ p @ ''/sse'' \<and> list_all is_digit p
            \<and> digits_value p \<le> 65535
         then Some \<lparr>url_hostname = ''127.0.0.1'',
                    url_port = (if p = [] \<or> digits_value p = 80 then []
                                else if q = [] then ''0'' else q),
                    url_pathname = ''/sse''\<rparr>
         else None)"

text \<open>A host where exactly the loopback ports \<open>listening\<close> answer.\<close>

definition loopback_platform :: "string list \<Rightarrow> platform" where
  "loopback_platform listening =
     \<lparr>URL_parse = sse_URL,
      http_get = (\<lambda>u. if url_port u \<in> set listening then Response 200 else TransportError)\<rparr>"

definition stdio_entry :: "string \<Rightarrow> string option \<Rightarrow> nat option \<Rightarrow> McpGatewayEntry" where
  "stdio_entry n c p =
     \<lparr>name = n, gtype = Stdio, command = c, args = None, env = None, port = p, url = None,
      optional = None, description = None\<rparr>"

definition http_entry :: "string \<Rightarrow> string option \<Rightarrow> McpGatewayEntry" where
  "http_entry n u =
     \<lparr>name = n, gtype = Http, command = None, args = None, env = None, port = None, url = u,
      optional = None, description = None\<rparr>"

text \<open>One \<^verbatim>\<open>stdio\<close> gateway, registered and spawned.\<close>

definition running_world :: world where
  "running_world = start_loop [stdio_entry ''g'' (Some ''echo'') (Some 9000)] init_world"


text \<open>
  \<open>health_frame w w'\<close>: from \<open>w\<close> to \<open>w'\<close> nothing changed but the \<open>healthy\<close> flag and
  the \<open>restartCount\<close> of stored objects, and the log.
\<close>

definition health_frame :: "world \<Rightarrow> world \<Rightarrow> bool" where
  "health_frame w w' =
     (next_ref w' = next_ref w \<and> managedGateways w' = managedGateways w
      \<and> healthCheckTimer w' = healthCheckTimer w \<and> children w' = children w
      \<and> timers w' = timers w \<and> intervals w' = intervals w \<and> next_pid w' = next_pid w
      \<and> next_tid w' = next_tid w \<and> signalled w' = signalled w
      \<and> (\<forall>r. rel_option
                 (\<lambda>m m'. m' = m\<lparr>healthy := healthy m', restartCount := restartCount m'\<rparr>)
                 (heap w r) (heap w' r)))"


text \<open>The gateway of \<open>running_world\<close> found healthy by a health pass.\<close>

definition healthy_world :: world where
  "healthy_world = snd (checkAllHealth (loopback_platform [''9000'']) running_world)"


text \<open>Two \<^verbatim>\<open>stdio\<close> declarations with a required field missing.\<close>

definition portless_entry :: McpGatewayEntry where
  "portless_entry = stdio_entry ''g'' (Some ''echo'') None"

definition commandless_entry :: McpGatewayEntry where
  "commandless_entry = stdio_entry ''g'' None (Some 9000)"


text \<open>
  The directory in the words of its contract: the registry entries whose object is
  healthy, in registry order, each with the replacement applied to its address.
\<close>

definition is_healthy :: "world \<Rightarrow> ref \<Rightarrow> bool" where
  "is_healthy w r = (case heap w r of None \<Rightarrow> False | Some m \<Rightarrow> healthy m)"

definition address_of :: "world \<Rightarrow> ref \<Rightarrow> string option" where
  "address_of w r = (case heap w r of None \<Rightarrow> None | Some m \<Rightarrow> getGatewayUrl (entry m))"

definition directory_spec :: "world \<Rightarrow> (string \<times> string) list" where
  "directory_spec w =
     map (\<lambda>x. (fst x, js_replace ''127.0.0.1'' ''host.docker.internal''
                        (js_string (address_of w (snd x)))))
       (filter (\<lambda>x. is_healthy w (snd x)) (managedGateways w))"

text \<open>\<open>occurs_in pat s\<close>: the text \<open>pat\<close> occurs somewhere in \<open>s\<close>.\<close>

fun occurs_in :: "string \<Rightarrow> string \<Rightarrow> bool" where
  "occurs_in pat [] = (pat = [])"
| "occurs_in pat (c # cs) = (take (length pat) (c # cs) = pat \<or> occurs_in pat cs)"

text \<open>
  A registry of four gateways: two external endpoints, one of them declared on the
  loopback address, and two \<^verbatim>\<open>stdio\<close> gateways, the second of them not healthy.
\<close>

definition directory_world :: world where
  "directory_world =
     init_world
       \<lparr>heap :=
          [0 \<mapsto> \<lparr>entry = http_entry ''local'' (Some ''http://127.0.0.1:8080/mcp''),
                   proc = None, healthy = True, restartCount = 0, restartTimer = None\<rparr>,
           1 \<mapsto> \<lparr>entry = http_entry ''db'' (Some ''https://db.example:443''),
                   proc = None, healthy = True, restartCount = 0, restartTimer = None\<rparr>,
           2 \<mapsto> \<lparr>entry = stdio_entry ''g'' (Some ''echo'') (Some 9000),
                   proc = Some 0, healthy = True, restartCount = 0, restartTimer = None\<rparr>,
           3 \<mapsto> \<lparr>entry = stdio_entry ''h'' (Some ''echo'') (Some 9001),
                   proc = Some 1, healthy = False, restartCount = 0, restartTimer = None\<rparr>],
        next_ref := 4,
        managedGateways := [(''local'', 0), (''db'', 1), (''g'', 2), (''h'', 3)],
        children := [(0, 2), (1, 3)],
        next_pid := 2\<rparr>"


text \<open>The declarations that the first loop of \<^verbatim>\<open>startMcpGateways\<close> spawns a process for.\<close>

definition startable :: "McpGatewayEntry \<Rightarrow> bool" where
  "startable e =
     (gtype e = Stdio \<and> \<not> falsy_string (command e) \<and> \<not> falsy_number (port e))"

text \<open>Two declarations of the same name.\<close>

definition twin_entries :: "McpGatewayEntry list" where
  "twin_entries =
     [stdio_entry ''g'' (Some ''echo'') (Some 9000), stdio_entry ''g'' (Some ''cat'') (Some 9001)]"


subsection \<open>The backoff delay\<close>

lemma pow2_ge_64: "6 \<le> n \<Longrightarrow> (64::nat) \<le> 2 ^ n"
proof -
  assume "6 \<le> n"
  then have "(2::nat) ^ 6 \<le> 2 ^ n"
    by (intro power_increasing) simp_all
  then show ?thesis by simp
qed

lemma getRestartDelay_closed: "getRestartDelay n = min (1000 * 2 ^ n) 60000"
proof (cases "n < 1024 \<and> (1000::nat) * 2 ^ n < 2 ^ 1024")
  case True
  then show ?thesis
    by (simp add: getRestartDelay_def Math_min_def js_times_def Math_pow2_def
        MAX_RESTART_DELAY_def)
next
  case False
  have big: "(60000::nat) \<le> 1000 * 2 ^ n"
  proof (cases "6 \<le> n")
    case True
    from pow2_ge_64 [OF True] show ?thesis by simp
  next
    case small: False
    with False have "\<not> (1000::nat) * 2 ^ n < 2 ^ 1024" by simp
    then have "(2::nat) ^ 1024 \<le> 1000 * 2 ^ n" by simp
    moreover have "(60000::nat) \<le> 2 ^ 1024" by simp
    ultimately show ?thesis by (rule order_trans [rotated])
  qed
  from False have "getRestartDelay n = 60000"
    by (auto simp add: getRestartDelay_def Math_min_def js_times_def Math_pow2_def
        MAX_RESTART_DELAY_def)
  with big show ?thesis by simp
qed

text \<open>
  C2. For every restart count \<open>n\<close> the restart delay is \<open>min (1000 * 2^n) 60000\<close>
  milliseconds: 1000 at \<open>n = 0\<close>, 60000 at \<open>n = 6\<close> and 60000 at \<open>n = 100\<close>.
\<close>

theorem C2_restart_delay:
  "getRestartDelay n = min (1000 * 2 ^ n) 60000
   \<and> getRestartDelay 0 = 1000
   \<and> getRestartDelay 6 = 60000
   \<and> getRestartDelay 100 = 60000"
proof -
  have "getRestartDelay 0 = min (1000 * 2 ^ 0) 60000"
    by (rule getRestartDelay_closed)
  then have a: "getRestartDelay 0 = 1000" by simp
  have "getRestartDelay 6 = min (1000 * 2 ^ 6) 60000"
    by (rule getRestartDelay_closed)
  then have b: "getRestartDelay 6 = 60000" by simp
  have "(60000::nat) \<le> 1000 * 2 ^ 100"
    using pow2_ge_64 [of 100] by simp
  then have c: "getRestartDelay 100 = 60000"
    by (simp add: getRestartDelay_closed [of 100])
  from a b c show ?thesis
    by (simp add: getRestartDelay_closed)
qed

subsection \<open>Frames of the primitive operations\<close>

lemma logger_frame [simp]:
  "heap (logger l g s w) = heap w" "next_ref (logger l g s w) = next_ref w"
  "managedGateways (logger l g s w) = managedGateways w"
  "healthCheckTimer (logger l g s w) = healthCheckTimer w"
  "children (logger l g s w) = children w" "timers (logger l g s w) = timers w"
  "intervals (logger l g s w) = intervals w" "next_pid (logger l g s w) = next_pid w"
  "next_tid (logger l g s w) = next_tid w" "signalled (logger l g s w) = signalled w"
  by (simp_all add: logger_def)


lemma one_outstanding_cong:
  "children w' = children w \<Longrightarrow> timers w' = timers w \<Longrightarrow> next_ref w' = next_ref w \<Longrightarrow>
   one_outstanding w' = one_outstanding w"
  by (simp add: one_outstanding_def fresh_refs_def pending_def children_of_def timers_of_def)

lemma one_outstanding_logger [simp]: "one_outstanding (logger l g s w) = one_outstanding w"
  by (rule one_outstanding_cong) simp_all






subsection \<open>The health pass\<close>

lemma health_frame_refl: "health_frame w w"
  by (simp add: health_frame_def option.rel_refl_strong)

lemma health_frame_trans:
  assumes "health_frame w w'" and "health_frame w' w''"
  shows "health_frame w w''"
proof -
  have "rel_option (\<lambda>m m'. m' = m\<lparr>healthy := healthy m', restartCount := restartCount m'\<rparr>)
          (heap w r) (heap w'' r)" for r
  proof -
    from assms have a: "rel_option
        (\<lambda>m m'. m' = m\<lparr>healthy := healthy m', restartCount := restartCount m'\<rparr>)
        (heap w r) (heap w' r)"
      and b: "rel_option
        (\<lambda>m m'. m' = m\<lparr>healthy := healthy m', restartCount := restartCount m'\<rparr>)
        (heap w' r) (heap w'' r)"
      by (simp_all add: health_frame_def)
    show ?thesis
    proof (cases "heap w r")
      case None
      with a b show ?thesis by (cases "heap w' r"; cases "heap w'' r") simp_all
    next
      case (Some m)
      with a obtain m' where m': "heap w' r = Some m'"
        "m' = m\<lparr>healthy := healthy m', restartCount := restartCount m'\<rparr>"
        by (cases "heap w' r") simp_all
      with b obtain m'' where m'': "heap w'' r = Some m''"
        "m'' = m'\<lparr>healthy := healthy m'', restartCount := restartCount m''\<rparr>"
        by (cases "heap w'' r") simp_all
      have "m'' = m\<lparr>healthy := healthy m'', restartCount := restartCount m''\<rparr>"
        by (subst m''(2), subst m'(2)) simp
      with Some m''(1) show ?thesis by simp
    qed
  qed
  with assms show ?thesis by (simp add: health_frame_def)
qed

text \<open>What the write after the probe does to the store.\<close>

lemma check_write_store:
  assumes "heap w r = Some m"
  shows "heap (check_write n was h r w) =
           (heap w)(r \<mapsto> m\<lparr>healthy := h,
              restartCount := (if h \<and> \<not> was then 0 else restartCount m)\<rparr>)"
  using assms by (simp add: check_write_def Let_def)

lemma check_write_frame: "health_frame w (check_write n was h r w)"
proof (cases "heap w r")
  case None
  then show ?thesis by (simp add: check_write_def health_frame_refl)
next
  case (Some m)
  then show ?thesis
    by (simp add: check_write_def Let_def health_frame_def option.rel_refl_strong)
qed

text \<open>A turn changes the state its events left only by that write.\<close>

lemma check_one_frame:
  assumes "check_one P during n r w = (c, w')"
  shows "health_frame (deliver_all during w) w'"
proof (cases "heap w r")
  case None
  with assms show ?thesis by (auto simp add: check_one_def health_frame_refl)
next
  case (Some m)
  show ?thesis
  proof (cases "healthCheck P (js_string (getGatewayUrl (entry m)))")
    case (Inl err)
    with assms Some show ?thesis by (auto simp add: check_one_def Let_def health_frame_refl)
  next
    case (Inr h)
    with assms Some have "w' = check_write n (healthy m) h r (deliver_all during w)"
      by (auto simp add: check_one_def Let_def)
    then show ?thesis by (simp add: check_write_frame)
  qed
qed

text \<open>
  The reset is attempted in every turn: a turn that read the gateway as not healthy and
  whose probe is answered leaves it healthy with a restart count of zero, whatever was
  delivered during the probe.
\<close>

lemma check_one_resets_when_read_unhealthy:
  assumes "heap w r = Some m" and "\<not> healthy m"
    and "healthCheck P (js_string (getGatewayUrl (entry m))) = Inr True"
    and "heap (deliver_all during w) r = Some m1"
  shows "heap (snd (check_one P during n r w)) r = Some (m1\<lparr>healthy := True, restartCount := 0\<rparr>)"
  using assms by (simp add: check_one_def Let_def check_write_store)

text \<open>A turn during which nothing is delivered.\<close>

lemma check_one_undisturbed:
  assumes "check_one P [] n r w = (c, w')"
  shows "w' = w
       \<or> (\<exists>m h. heap w r = Some m
             \<and> healthCheck P (js_string (getGatewayUrl (entry m))) = Inr h
             \<and> heap w' = (heap w)(r \<mapsto> m\<lparr>healthy := h,
                   restartCount := (if h \<and> \<not> healthy m then 0 else restartCount m)\<rparr>))"
proof (cases "heap w r")
  case None
  with assms show ?thesis by (auto simp add: check_one_def)
next
  case (Some m)
  show ?thesis
  proof (cases "healthCheck P (js_string (getGatewayUrl (entry m)))")
    case (Inl err)
    with assms Some show ?thesis by (auto simp add: check_one_def Let_def)
  next
    case (Inr h)
    with assms Some have "w' = check_write n (healthy m) h r w"
      by (auto simp add: check_one_def Let_def)
    with Some Inr show ?thesis by (simp add: check_write_store)
  qed
qed

lemma checkAllHealth_loop_frame:
  "checkAllHealth_loop P [] xs w = (c, w') \<Longrightarrow> health_frame w w'"
proof (induction xs arbitrary: w)
  case Nil
  then show ?case by (simp add: health_frame_refl)
next
  case (Cons x xs)
  obtain n r where x: "x = (n, r)" by (cases x)
  obtain c1 w1 where turn: "check_one P [] n r w = (c1, w1)" by (cases "check_one P [] n r w")
  from check_one_frame [OF turn] have f1: "health_frame w w1" by simp
  show ?case
  proof (cases c1)
    case (Rejected err)
    with Cons.prems x turn f1 show ?thesis by simp
  next
    case Fulfilled
    with Cons.prems x turn have "checkAllHealth_loop P [] xs w1 = (c, w')" by simp
    then have "health_frame w1 w'" by (rule Cons.IH)
    with f1 show ?thesis by (rule health_frame_trans)
  qed
qed

lemma checkAllHealth_frame: "checkAllHealth P w = (c, w') \<Longrightarrow> health_frame w w'"
  by (simp add: checkAllHealth_def checkAllHealth_during_def checkAllHealth_loop_frame)

text \<open>
  The invariant of a pass during which nothing is delivered: an object that was not
  healthy when the pass began and is healthy now has a restart count of zero.
\<close>

lemma check_one_reset:
  assumes step: "check_one P [] n r w = (c, w1)"
    and inv: "\<And>q m m'. heap w0 q = Some m \<Longrightarrow> \<not> healthy m \<Longrightarrow> heap w q = Some m' \<Longrightarrow>
                healthy m' \<Longrightarrow> restartCount m' = 0"
    and q: "heap w0 q = Some m" "\<not> healthy m" "heap w1 q = Some m'" "healthy m'"
  shows "restartCount m' = 0"
proof -
  from check_one_undisturbed [OF step] show ?thesis
  proof
    assume "w1 = w"
    with inv q show ?thesis by blast
  next
    assume "\<exists>m h. heap w r = Some m
             \<and> healthCheck P (js_string (getGatewayUrl (entry m))) = Inr h
             \<and> heap w1 = (heap w)(r \<mapsto> m\<lparr>healthy := h,
                   restartCount := (if h \<and> \<not> healthy m then 0 else restartCount m)\<rparr>)"
    then obtain k h where k: "heap w r = Some k"
      and hp: "heap w1 = (heap w)(r \<mapsto> k\<lparr>healthy := h,
                   restartCount := (if h \<and> \<not> healthy k then 0 else restartCount k)\<rparr>)"
      by blast
    show ?thesis
    proof (cases "q = r")
      case False
      with hp q(3) have "heap w q = Some m'" by simp
      with inv q show ?thesis by blast
    next
      case True
      with hp q(3) have m': "m' = k\<lparr>healthy := h,
                   restartCount := (if h \<and> \<not> healthy k then 0 else restartCount k)\<rparr>"
        by simp
      show ?thesis
      proof (cases "healthy k")
        case False
        with m' q(4) show ?thesis by simp
      next
        case hk: True
        from inv [OF q(1) q(2) _ hk] k True have "restartCount k = 0" by simp
        with m' show ?thesis by simp
      qed
    qed
  qed
qed

lemma checkAllHealth_loop_reset:
  assumes "checkAllHealth_loop P [] xs w = (c, w')"
    and "\<And>q m m'. heap w0 q = Some m \<Longrightarrow> \<not> healthy m \<Longrightarrow> heap w q = Some m' \<Longrightarrow>
                healthy m' \<Longrightarrow> restartCount m' = 0"
    and "heap w0 q = Some m" "\<not> healthy m" "heap w' q = Some m'" "healthy m'"
  shows "restartCount m' = 0"
  using assms
proof (induction xs arbitrary: w)
  case Nil
  then show ?case by simp
next
  case (Cons x xs)
  obtain n r where x: "x = (n, r)" by (cases x)
  obtain c1 w1 where turn: "check_one P [] n r w = (c1, w1)" by (cases "check_one P [] n r w")
  have inv1: "restartCount k' = 0"
    if "heap w0 p = Some k" "\<not> healthy k" "heap w1 p = Some k'" "healthy k'" for p k k'
    using turn Cons.prems(2) that by (rule check_one_reset)
  show ?case
  proof (cases c1)
    case (Rejected err)
    with Cons.prems(1) x turn have "w' = w1" by simp
    with inv1 Cons.prems(3-6) show ?thesis by blast
  next
    case Fulfilled
    with Cons.prems(1) x turn have l: "checkAllHealth_loop P [] xs w1 = (c, w')" by simp
    show ?thesis
      by (rule Cons.IH [OF l inv1 Cons.prems(3-6)])
  qed
qed

lemma undisturbed_pass_resets_restartCount:
  assumes "checkAllHealth P w = (c, w')"
    and "heap w r = Some m" and "\<not> healthy m"
    and "heap w' r = Some m'" and "healthy m'"
  shows "restartCount m' = 0"
proof -
  from assms(1) have "checkAllHealth_loop P [] (managedGateways w) w = (c, w')"
    by (simp add: checkAllHealth_def checkAllHealth_during_def)
  then show ?thesis
  proof (rule checkAllHealth_loop_reset [where ?w0.0 = w])
    fix q k k'
    assume "heap w q = Some k" "\<not> healthy k" "heap w q = Some k'" "healthy k'"
    then show "restartCount k' = 0" by simp
  qed (rule assms)+
qed

subsection \<open>Runs of the model on concrete declarations\<close>

lemma String_of_nat_9000: "String_of_nat 9000 = ''9000''"
  by (simp add: String_of_nat.simps [of 9000] String_of_nat.simps [of 900]
      String_of_nat.simps [of 90] String_of_nat.simps [of 9] digit_char_def)

lemma sse_URL_undefined: "sse_URL ''http://127.0.0.1:undefined/sse'' = None"
  by (simp add: sse_URL_def is_digit_def)

lemma sse_URL_9000:
  "sse_URL ''http://127.0.0.1:9000/sse'' =
     Some \<lparr>url_hostname = ''127.0.0.1'', url_port = ''9000'', url_pathname = ''/sse''\<rparr>"
  by (simp add: sse_URL_def is_digit_def digits_value_def digit_value_def)

lemma sse_URL_9001:
  "sse_URL ''http://127.0.0.1:9001/sse'' =
     Some \<lparr>url_hostname = ''127.0.0.1'', url_port = ''9001'', url_pathname = ''/sse''\<rparr>"
  by (simp add: sse_URL_def is_digit_def digits_value_def digit_value_def)

lemma stdio_entry_sel [simp]:
  "name (stdio_entry n c p) = n" "gtype (stdio_entry n c p) = Stdio"
  "command (stdio_entry n c p) = c" "port (stdio_entry n c p) = p"
  "url (stdio_entry n c p) = None" "optional (stdio_entry n c p) = None"
  by (simp_all add: stdio_entry_def)

lemma http_entry_sel [simp]:
  "name (http_entry n u) = n" "gtype (http_entry n u) = Http"
  "url (http_entry n u) = u" "optional (http_entry n u) = None"
  by (simp_all add: http_entry_def)

lemma url_port_9000:
  "js_string (getGatewayUrl (stdio_entry n c (Some 9000))) = ''http://127.0.0.1:9000/sse''"
  by (simp add: getGatewayUrl_def js_string_def String_of_nat_9000)

lemma url_port_undefined:
  "js_string (getGatewayUrl (stdio_entry n c None)) = ''http://127.0.0.1:undefined/sse''"
  by (simp add: getGatewayUrl_def js_string_def)

lemma probe_up:
  "healthCheck (loopback_platform [''9000'']) ''http://127.0.0.1:9000/sse'' = Inr True"
  by (simp add: healthCheck_def loopback_platform_def sse_URL_9000)

lemma probe_down:
  "healthCheck (loopback_platform []) ''http://127.0.0.1:9000/sse'' = Inr False"
  by (simp add: healthCheck_def loopback_platform_def sse_URL_9000)

lemma probe_invalid:
  "healthCheck (loopback_platform ps) ''http://127.0.0.1:undefined/sse''
     = Inl (TypeError ''Invalid URL'')"
  by (simp add: healthCheck_def loopback_platform_def sse_URL_undefined)

lemma getRestartDelay_0: "getRestartDelay 0 = 1000"
  by (simp add: getRestartDelay_def Math_min_def js_times_def Math_pow2_def MAX_RESTART_DELAY_def)


lemma running_world_eq:
  "running_world =
     \<lparr>heap = [0 \<mapsto> \<lparr>entry = stdio_entry ''g'' (Some ''echo'') (Some 9000), proc = Some 0,
                       healthy = False, restartCount = 0, restartTimer = None\<rparr>],
      next_ref = 1, managedGateways = [(''g'', 0)], healthCheckTimer = None,
      children = [(0, 0)], timers = [], intervals = [], next_pid = 1, next_tid = 0,
      signalled = [], log = [(LInfo, Some ''g'', ''Spawning supergateway'')]\<rparr>"
  by (simp add: running_world_def register_entry_def init_world_def
      falsy_string_def falsy_number_def startGatewayProcess_def spawnSupergateway_def
      logger_def)

lemma healthy_world_eq:
  "healthy_world =
     \<lparr>heap = [0 \<mapsto> \<lparr>entry = stdio_entry ''g'' (Some ''echo'') (Some 9000), proc = Some 0,
                       healthy = True, restartCount = 0, restartTimer = None\<rparr>],
      next_ref = 1, managedGateways = [(''g'', 0)], healthCheckTimer = None,
      children = [(0, 0)], timers = [], intervals = [], next_pid = 1, next_tid = 0,
      signalled = [],
      log = [(LInfo, Some ''g'', ''Spawning supergateway''),
             (LInfo, Some ''g'', ''MCP gateway became healthy'')]\<rparr>"
  by (simp add: healthy_world_def checkAllHealth_def checkAllHealth_during_def running_world_eq check_one_def check_write_def
      url_port_9000 probe_up logger_def Let_def)

lemma check_healthy_down:
  "checkAllHealth (loopback_platform []) healthy_world =
     (Fulfilled,
      healthy_world
        \<lparr>heap := [0 \<mapsto> \<lparr>entry = stdio_entry ''g'' (Some ''echo'') (Some 9000),
                           proc = Some 0, healthy = False, restartCount = 0,
                           restartTimer = None\<rparr>],
         log := log healthy_world @ [(LError, Some ''g'', ''MCP gateway became unhealthy'')]\<rparr>)"
  by (simp add: checkAllHealth_def checkAllHealth_during_def healthy_world_eq check_one_def check_write_def url_port_9000 probe_down
      logger_def Let_def)

subsection \<open>Health transitions\<close>

text \<open>
  C8. The turn of the health pass reads \<^verbatim>\<open>wasHealthy\<close> before it awaits the probe and
  writes \<^verbatim>\<open>healthy\<close> after it. The gateway of \<open>healthy_world\<close> is healthy when its turn
  begins; its process closes while the probe is awaited, which marks it unhealthy and
  counts one restart; the probe is answered, and the write takes the gateway from
  unhealthy to healthy with the restart count left at 1, since the turn compares with
  the value it read before.
\<close>

theorem C8_close_during_probe_keeps_restartCount:
  "map_option healthy (heap healthy_world 0) = Some True
   \<and> map_option restartCount (heap healthy_world 0) = Some 0
   \<and> map_option healthy (heap (deliver_all [Close 0] healthy_world) 0) = Some False
   \<and> map_option restartCount (heap (deliver_all [Close 0] healthy_world) 0) = Some 1
   \<and> fst (checkAllHealth_during (loopback_platform [''9000'']) [[Close 0]] healthy_world)
       = Fulfilled
   \<and> map_option healthy
        (heap (snd (checkAllHealth_during (loopback_platform [''9000'']) [[Close 0]]
                      healthy_world)) 0) = Some True
   \<and> map_option restartCount
        (heap (snd (checkAllHealth_during (loopback_platform [''9000'']) [[Close 0]]
                      healthy_world)) 0) = Some 1"
proof -
  have closed: "deliver_all [Close 0] healthy_world =
     healthy_world
       \<lparr>heap := [0 \<mapsto> \<lparr>entry = stdio_entry ''g'' (Some ''echo'') (Some 9000), proc = None,
                          healthy = False, restartCount = 1, restartTimer = Some 0\<rparr>],
        children := [], timers := [(0, 0, 1000)], next_tid := 1,
        log := log healthy_world @
          [(LWarn, Some ''g'', ''Supergateway process exited''),
           (LInfo, Some ''g'', ''Scheduling gateway restart'')]\<rparr>"
    by (simp add: healthy_world_eq deliver_close_def on_close_def setTimeout_def logger_def
        Let_def getRestartDelay_0)
  have pass: "checkAllHealth_during (loopback_platform [''9000'']) [[Close 0]] healthy_world =
     (Fulfilled,
      check_write ''g'' True True 0 (deliver_all [Close 0] healthy_world))"
    by (simp add: checkAllHealth_during_def check_one_def healthy_world_eq url_port_9000
        probe_up Let_def del: deliver_all.simps)
  have after: "heap (check_write ''g'' True True 0 (deliver_all [Close 0] healthy_world)) 0 =
     Some \<lparr>entry = stdio_entry ''g'' (Some ''echo'') (Some 9000), proc = None,
           healthy = True, restartCount = 1, restartTimer = Some 0\<rparr>"
    unfolding closed by (simp add: check_write_def Let_def healthy_world_eq)
  have before: "map_option healthy (heap healthy_world 0) = Some True
     \<and> map_option restartCount (heap healthy_world 0) = Some 0"
    by (simp add: healthy_world_eq)
  have between: "map_option healthy (heap (deliver_all [Close 0] healthy_world) 0) = Some False
     \<and> map_option restartCount (heap (deliver_all [Close 0] healthy_world) 0) = Some 1"
    unfolding closed by (simp add: healthy_world_eq)
  from before between show ?thesis
    unfolding pass by (simp add: after del: deliver_all.simps)
qed

text \<open>
  C9. A health pass writes the \<open>healthy\<close> flag and the \<open>restartCount\<close> of the stored
  objects and the log, and nothing else: the registry, the live child processes, the
  pending restart timers and every object's declaration, process handle and restart timer
  handle are as before, so the pass starts and schedules nothing.
\<close>

theorem C9_health_pass_frame:
  assumes "checkAllHealth P w = (c, w')"
  shows "managedGateways w' = managedGateways w
       \<and> healthCheckTimer w' = healthCheckTimer w
       \<and> children w' = children w \<and> next_pid w' = next_pid w
       \<and> timers w' = timers w \<and> next_tid w' = next_tid w
       \<and> intervals w' = intervals w \<and> signalled w' = signalled w
       \<and> (\<forall>r. heap w r = None \<longrightarrow> heap w' r = None)
       \<and> (\<forall>r m. heap w r = Some m \<longrightarrow>
              (\<exists>m'. heap w' r = Some m' \<and> entry m' = entry m \<and> proc m' = proc m
                    \<and> restartTimer m' = restartTimer m))"
proof -
  from assms have f: "health_frame w w'" by (rule checkAllHealth_frame)
  have none: "heap w' r = None" if "heap w r = None" for r
  proof -
    from f have "rel_option
        (\<lambda>m m'. m' = m\<lparr>healthy := healthy m', restartCount := restartCount m'\<rparr>)
        (heap w r) (heap w' r)"
      by (simp add: health_frame_def)
    with that show ?thesis by (cases "heap w' r") simp_all
  qed
  have some: "\<exists>m'. heap w' r = Some m' \<and> entry m' = entry m \<and> proc m' = proc m
                    \<and> restartTimer m' = restartTimer m" if "heap w r = Some m" for r m
  proof -
    from f have "rel_option
        (\<lambda>m m'. m' = m\<lparr>healthy := healthy m', restartCount := restartCount m'\<rparr>)
        (heap w r) (heap w' r)"
      by (simp add: health_frame_def)
    with that obtain m' where m': "heap w' r = Some m'"
      "m' = m\<lparr>healthy := healthy m', restartCount := restartCount m'\<rparr>"
      by (cases "heap w' r") simp_all
    have "entry m' = entry m \<and> proc m' = proc m \<and> restartTimer m' = restartTimer m"
      by (subst m'(2), subst m'(2), subst m'(2)) simp
    with m'(1) show ?thesis by simp
  qed
  from f none some show ?thesis
    by (simp add: health_frame_def)
qed

text \<open>
  The healthy gateway of \<open>healthy_world\<close> stops answering: the pass marks it unhealthy
  and leaves its process handle, the live child and the empty timer list alone.
\<close>

theorem C9_witness:
  "map_option healthy (heap healthy_world 0) = Some True
   \<and> map_option proc (heap healthy_world 0) = Some (Some 0)
   \<and> fst (checkAllHealth (loopback_platform []) healthy_world) = Fulfilled
   \<and> map_option healthy
        (heap (snd (checkAllHealth (loopback_platform []) healthy_world)) 0) = Some False
   \<and> map_option proc
        (heap (snd (checkAllHealth (loopback_platform []) healthy_world)) 0) = Some (Some 0)
   \<and> children (snd (checkAllHealth (loopback_platform []) healthy_world)) = [(0, 0)]
   \<and> timers (snd (checkAllHealth (loopback_platform []) healthy_world)) = []"
proof -
  let ?w' = "snd (checkAllHealth (loopback_platform []) healthy_world)"
  have run: "checkAllHealth (loopback_platform []) healthy_world = (Fulfilled, ?w')"
    by (simp add: check_healthy_down)
  from C9_health_pass_frame [OF run]
  have "children ?w' = children healthy_world" and "timers ?w' = timers healthy_world"
    by simp_all
  then have "children ?w' = [(0, 0)]" and "timers ?w' = []"
    by (simp_all add: healthy_world_eq)
  moreover have "map_option healthy (heap healthy_world 0) = Some True"
    and "map_option proc (heap healthy_world 0) = Some (Some 0)"
    by (simp_all add: healthy_world_eq)
  moreover have "map_option healthy (heap ?w' 0) = Some False"
    and "map_option proc (heap ?w' 0) = Some (Some 0)"
    by (simp_all add: check_healthy_down)
  moreover have "fst (checkAllHealth (loopback_platform []) healthy_world) = Fulfilled"
    by (simp add: check_healthy_down)
  ultimately show ?thesis by simp
qed

subsection \<open>One outstanding child or timer per object\<close>






















subsection \<open>The listeners of a child process\<close>

lemma on_error_eq:
  "heap w r = Some m \<Longrightarrow>
   on_error r w =
     w\<lparr>log := log w @ [(LError, Some (name (entry m)), ''Supergateway spawn error'')],
       heap := (heap w)(r \<mapsto> m\<lparr>healthy := False\<rparr>)\<rparr>"
  by (simp add: on_error_def logger_def)

lemma on_close_eq:
  "heap w r = Some m \<Longrightarrow>
   on_close r w =
     w\<lparr>log := log w @ [(LWarn, Some (name (entry m)), ''Supergateway process exited''),
                        (LInfo, Some (name (entry m)), ''Scheduling gateway restart'')],
       timers := timers w @ [(next_tid w, r, getRestartDelay (restartCount m))],
       next_tid := Suc (next_tid w),
       heap := (heap w)(r \<mapsto> m\<lparr>healthy := False, proc := None,
                                  restartCount := restartCount m + 1,
                                  restartTimer := Some (next_tid w)\<rparr>)\<rparr>"
  by (simp add: on_close_def logger_def setTimeout_def Let_def)

lemma running_gateway:
  "heap running_world 0 =
     Some \<lparr>entry = stdio_entry ''g'' (Some ''echo'') (Some 9000), proc = Some 0,
           healthy = False, restartCount = 0, restartTimer = None\<rparr>"
  by (simp add: running_world_eq)

text \<open>
  C1 (as amended). The \<^verbatim>\<open>error\<close> listener only marks the gateway unhealthy and logs at
  error severity: the stored process handle, the restart count, the restart timer handle
  and the pending timers are as before. It is the \<^verbatim>\<open>close\<close> listener that marks the
  gateway unhealthy, clears the handle, computes the delay from the restart count,
  increments the count and schedules one restart timer.
\<close>

theorem C1_error_listener_only_marks_unhealthy:
  assumes "heap w r = Some m"
  shows "on_error r w =
           w\<lparr>log := log w @ [(LError, Some (name (entry m)), ''Supergateway spawn error'')],
             heap := (heap w)(r \<mapsto> m\<lparr>healthy := False\<rparr>)\<rparr>
       \<and> on_close r w =
           w\<lparr>log := log w @ [(LWarn, Some (name (entry m)), ''Supergateway process exited''),
                              (LInfo, Some (name (entry m)), ''Scheduling gateway restart'')],
             timers := timers w @ [(next_tid w, r, getRestartDelay (restartCount m))],
             next_tid := Suc (next_tid w),
             heap := (heap w)(r \<mapsto> m\<lparr>healthy := False, proc := None,
                                        restartCount := restartCount m + 1,
                                        restartTimer := Some (next_tid w)\<rparr>)\<rparr>"
  using assms by (simp add: on_error_eq on_close_eq)

text \<open>On the running gateway: after \<^verbatim>\<open>error\<close> the handle is kept and no timer is pending.\<close>

theorem C1_witness:
  "heap running_world 0 =
     Some \<lparr>entry = stdio_entry ''g'' (Some ''echo'') (Some 9000), proc = Some 0,
           healthy = False, restartCount = 0, restartTimer = None\<rparr>
   \<and> heap (on_error 0 running_world) 0 =
       Some \<lparr>entry = stdio_entry ''g'' (Some ''echo'') (Some 9000), proc = Some 0,
             healthy = False, restartCount = 0, restartTimer = None\<rparr>
   \<and> timers (on_error 0 running_world) = timers running_world
   \<and> heap (on_close 0 running_world) 0 =
       Some \<lparr>entry = stdio_entry ''g'' (Some ''echo'') (Some 9000), proc = None,
             healthy = False, restartCount = 1, restartTimer = Some 0\<rparr>
   \<and> timers (on_close 0 running_world) = [(0, 0, 1000)]"
proof -
  from C1_error_listener_only_marks_unhealthy [OF running_gateway]
  have "on_error 0 running_world = running_world
          \<lparr>log := log running_world @ [(LError, Some ''g'', ''Supergateway spawn error'')],
           heap := (heap running_world)(0 \<mapsto>
             \<lparr>entry = stdio_entry ''g'' (Some ''echo'') (Some 9000), proc = Some 0,
              healthy = False, restartCount = 0, restartTimer = None\<rparr>)\<rparr>"
    and "on_close 0 running_world = running_world
          \<lparr>log := log running_world @ [(LWarn, Some ''g'', ''Supergateway process exited''),
                                        (LInfo, Some ''g'', ''Scheduling gateway restart'')],
           timers := timers running_world @ [(next_tid running_world, 0, getRestartDelay 0)],
           next_tid := Suc (next_tid running_world),
           heap := (heap running_world)(0 \<mapsto>
             \<lparr>entry = stdio_entry ''g'' (Some ''echo'') (Some 9000), proc = None,
              healthy = False, restartCount = 1, restartTimer = Some (next_tid running_world)\<rparr>)\<rparr>"
    by simp_all
  then show ?thesis
    by (simp add: running_world_eq getRestartDelay_0)
qed

text \<open>
  Against C1 as stated: on the running gateway the \<^verbatim>\<open>error\<close> listener keeps the process
  handle, leaves the restart count at 0 and schedules nothing, where the \<^verbatim>\<open>close\<close>
  listener clears the handle, counts one restart and schedules a timer of 1000 ms.
\<close>

theorem C1_counterexample:
  "map_option proc (heap (on_error 0 running_world) 0) = Some (Some 0)
   \<and> map_option restartCount (heap (on_error 0 running_world) 0) = Some 0
   \<and> timers (on_error 0 running_world) = []
   \<and> map_option proc (heap (on_close 0 running_world) 0) = Some None
   \<and> map_option restartCount (heap (on_close 0 running_world) 0) = Some 1
   \<and> timers (on_close 0 running_world) = [(0, 0, 1000)]"
  by (simp add: running_world_eq on_error_def on_close_def logger_def setTimeout_def
      getRestartDelay_0 Let_def)




text \<open>
  Two declarations of one name, each process closing once: each of the two objects has
  its one restart timer pending, so two timers are pending under the name.
\<close>

lemma same_name_two_timers:
  "timers (run [EvRegister twin_entries, EvListener (Close 0), EvListener (Close 1)]
             init_world) = [(0, 0, 1000), (1, 1, 1000)]
   \<and> managedGateways (run [EvRegister twin_entries, EvListener (Close 0),
                            EvListener (Close 1)] init_world) = [(''g'', 1)]"
  by (simp add: twin_entries_def register_entry_def init_world_def falsy_string_def
      falsy_number_def startGatewayProcess_def spawnSupergateway_def deliver_close_def
      on_close_def setTimeout_def logger_def Let_def getRestartDelay_0)

subsection \<open>The health probe\<close>

lemma healthCheck_rejects_iff:
  "(\<exists>err. healthCheck P u = Inl err) \<longleftrightarrow> URL_parse P u = None"
  by (auto simp add: healthCheck_def split: option.splits http_outcome.splits)

lemma healthCheck_resolves:
  "URL_parse P u = Some parsed \<Longrightarrow>
   healthCheck P u = Inr (\<exists>status. http_get P parsed = Response status)"
  by (cases "http_get P parsed") (simp_all add: healthCheck_def)

text \<open>
  C6. The probe is rejected on an address that the URL constructor throws on: the address
  that \<^verbatim>\<open>getGatewayUrl\<close> builds for a \<^verbatim>\<open>stdio\<close> declaration without a port is one. On a
  parsable address it resolves to true when the port answers and to false when it does
  not.
\<close>

theorem C6_probe_rejected_on_invalid_address:
  "js_string (getGatewayUrl portless_entry) = ''http://127.0.0.1:undefined/sse''
   \<and> healthCheck (loopback_platform [''9000'']) ''http://127.0.0.1:undefined/sse''
       = Inl (TypeError ''Invalid URL'')
   \<and> healthCheck (loopback_platform [''9000'']) ''http://127.0.0.1:9000/sse'' = Inr True
   \<and> healthCheck (loopback_platform [''9000'']) ''http://127.0.0.1:9001/sse'' = Inr False"
proof -
  have "healthCheck (loopback_platform [''9000'']) ''http://127.0.0.1:9001/sse'' = Inr False"
    by (simp add: healthCheck_def loopback_platform_def sse_URL_9001)
  then show ?thesis
    by (simp add: portless_entry_def url_port_undefined probe_invalid probe_up)
qed

subsection \<open>Configuration input\<close>

text \<open>
  The load failures that are absorbed: when the configuration file is absent, cannot be
  read or parsed, parses to a falsy value or declares an empty list of gateways,
  \<^verbatim>\<open>startMcpGateways\<close> is fulfilled and leaves the registry, the store, the child processes
  and the timers as they were. \<^verbatim>\<open>stopMcpGateways\<close> is fulfilled in every state and leaves
  the registry empty.
\<close>

lemma load_failures_absorbed:
  assumes "f = FileAbsent \<or> f = FileUnparsable \<or> f = FileParsed CfgFalsy
           \<or> f = FileParsed (CfgGateways [])"
  shows "fst (startMcpGateways P f w) = Fulfilled
       \<and> managedGateways (snd (startMcpGateways P f w)) = managedGateways w
       \<and> heap (snd (startMcpGateways P f w)) = heap w
       \<and> children (snd (startMcpGateways P f w)) = children w
       \<and> timers (snd (startMcpGateways P f w)) = timers w
       \<and> intervals (snd (startMcpGateways P f w)) = intervals w
       \<and> fst (stopMcpGateways w) = Fulfilled
       \<and> managedGateways (snd (stopMcpGateways w)) = []"
proof -
  have "fst (stopMcpGateways w) = Fulfilled \<and> managedGateways (snd (stopMcpGateways w)) = []"
    by (simp add: stopMcpGateways_def Let_def)
  moreover from assms
  have "fst (startMcpGateways P f w) = Fulfilled
       \<and> managedGateways (snd (startMcpGateways P f w)) = managedGateways w
       \<and> heap (snd (startMcpGateways P f w)) = heap w
       \<and> children (snd (startMcpGateways P f w)) = children w
       \<and> timers (snd (startMcpGateways P f w)) = timers w
       \<and> intervals (snd (startMcpGateways P f w)) = intervals w"
    by (elim disjE) (simp_all add: startMcpGateways_def loadConfig_def)
  ultimately show ?thesis by simp
qed

text \<open>
  C5. \<^verbatim>\<open>loadConfig\<close> absorbs an absent file and a file that cannot be read or parsed, and
  the guard of \<^verbatim>\<open>startMcpGateways\<close> absorbs a falsy value and an empty list: on each of
  them the start is fulfilled and no gateway is managed. A file that parses to a value
  without a \<^verbatim>\<open>gateways\<close> property, such as \<^verbatim>\<open>{}\<close>, is malformed in shape and is not
  absorbed: the guard reads \<^verbatim>\<open>length\<close> of undefined, which throws, and
  \<^verbatim>\<open>startMcpGateways\<close> is rejected.
\<close>

theorem C5_start_rejected_on_missing_gateways:
  "startMcpGateways (loopback_platform []) FileAbsent init_world =
     (Fulfilled,
      init_world\<lparr>log := [(LInfo, None, ''No MCP gateway config found, skipping'')]\<rparr>)
   \<and> startMcpGateways (loopback_platform []) FileUnparsable init_world =
       (Fulfilled,
        init_world\<lparr>log := [(LError, None, ''Failed to parse MCP gateway config'')]\<rparr>)
   \<and> startMcpGateways (loopback_platform []) (FileParsed CfgFalsy) init_world =
       (Fulfilled, init_world)
   \<and> startMcpGateways (loopback_platform []) (FileParsed (CfgGateways [])) init_world =
       (Fulfilled, init_world)
   \<and> startMcpGateways (loopback_platform []) (FileParsed CfgNoGateways) init_world =
       (Rejected (TypeError ''Cannot read properties of undefined (reading length)''),
        init_world)"
  by (simp add: startMcpGateways_def loadConfig_def logger_def init_world_def)

subsection \<open>Declarations with a required field missing\<close>

lemma register_entry_missing_field:
  assumes "gtype e = Stdio" and "falsy_string (command e) \<or> falsy_number (port e)"
  shows "register_entry e w =
           w\<lparr>heap := (heap w)(next_ref w \<mapsto>
                 \<lparr>entry = e, proc = None, healthy = False, restartCount = 0,
                  restartTimer = None\<rparr>),
             next_ref := Suc (next_ref w),
             managedGateways := Map_set (name e) (next_ref w) (managedGateways w),
             log := log w @ [(LError, Some (name e),
                              ''stdio gateway missing command or port, skipping'')]\<rparr>"
  using assms by (simp add: register_entry_def logger_def Let_def)

lemma start_portless:
  "start_loop [portless_entry] init_world =
     \<lparr>heap = [0 \<mapsto> \<lparr>entry = portless_entry, proc = None, healthy = False,
                       restartCount = 0, restartTimer = None\<rparr>],
      next_ref = 1, managedGateways = [(''g'', 0)], healthCheckTimer = None,
      children = [], timers = [], intervals = [], next_pid = 0, next_tid = 0,
      signalled = [],
      log = [(LError, Some ''g'', ''stdio gateway missing command or port, skipping'')]\<rparr>"
  by (simp add: register_entry_missing_field portless_entry_def falsy_number_def
      init_world_def)

lemma start_commandless:
  "start_loop [commandless_entry] init_world =
     \<lparr>heap = [0 \<mapsto> \<lparr>entry = commandless_entry, proc = None, healthy = False,
                       restartCount = 0, restartTimer = None\<rparr>],
      next_ref = 1, managedGateways = [(''g'', 0)], healthCheckTimer = None,
      children = [], timers = [], intervals = [], next_pid = 0, next_tid = 0,
      signalled = [],
      log = [(LError, Some ''g'', ''stdio gateway missing command or port, skipping'')]\<rparr>"
  by (simp add: register_entry_missing_field commandless_entry_def falsy_string_def
      init_world_def)

lemma startMcpGateways_portless:
  "startMcpGateways (loopback_platform ps) (FileParsed (CfgGateways [portless_entry])) init_world
     = (Rejected (TypeError ''Invalid URL''), start_loop [portless_entry] init_world)"
proof -
  have "checkAllHealth (loopback_platform ps) (start_loop [portless_entry] init_world)
          = (Rejected (TypeError ''Invalid URL''), start_loop [portless_entry] init_world)"
    unfolding start_portless
    by (simp add: checkAllHealth_def checkAllHealth_during_def check_one_def check_write_def portless_entry_def url_port_undefined
        probe_invalid Let_def)
  then show ?thesis
    by (simp add: startMcpGateways_def loadConfig_def del: start_loop.simps)
qed

lemma startMcpGateways_commandless:
  "startMcpGateways (loopback_platform [''9000''])
       (FileParsed (CfgGateways [commandless_entry])) init_world
     = (Fulfilled,
        \<lparr>heap = [0 \<mapsto> \<lparr>entry = commandless_entry, proc = None, healthy = True,
                          restartCount = 0, restartTimer = None\<rparr>],
         next_ref = 1, managedGateways = [(''g'', 0)], healthCheckTimer = Some 0,
         children = [], timers = [], intervals = [(0, 30000)], next_pid = 0, next_tid = 1,
         signalled = [],
         log = [(LError, Some ''g'', ''stdio gateway missing command or port, skipping''),
                (LInfo, Some ''g'', ''MCP gateway became healthy''),
                (LInfo, Some ''g'', ''MCP gateway started'')]\<rparr>)"
proof -
  have "checkAllHealth (loopback_platform [''9000'']) (start_loop [commandless_entry] init_world)
          = (Fulfilled,
             (start_loop [commandless_entry] init_world)
               \<lparr>heap := [0 \<mapsto> \<lparr>entry = commandless_entry, proc = None, healthy = True,
                          restartCount = 0, restartTimer = None\<rparr>],
                log := [(LError, Some ''g'', ''stdio gateway missing command or port, skipping''),
                        (LInfo, Some ''g'', ''MCP gateway became healthy'')]\<rparr>)"
    unfolding start_commandless
    by (simp add: checkAllHealth_def checkAllHealth_during_def check_one_def check_write_def commandless_entry_def url_port_9000
        probe_up Let_def logger_def)
  then show ?thesis
    by (simp add: startMcpGateways_def loadConfig_def start_commandless setInterval_def
        HEALTH_CHECK_INTERVAL_def logger_def Let_def del: start_loop.simps)
qed

lemma getAvailableGateways_commandless:
  "getAvailableGateways
     (snd (startMcpGateways (loopback_platform [''9000''])
             (FileParsed (CfgGateways [commandless_entry])) init_world))
     = Inr [(''g'', ''http://host.docker.internal:9000/sse'')]"
  unfolding startMcpGateways_commandless
  by (simp add: getAvailableGateways_def commandless_entry_def getGatewayUrl_def js_string_def
      String_of_nat_9000)

text \<open>
  C3. A \<^verbatim>\<open>stdio\<close> declaration without a port is reported at error severity and no process
  is spawned for it, but it was put into the registry before the check, so the health
  pass of startup probes it: its address does not parse, the probe is rejected and with
  it \<^verbatim>\<open>startMcpGateways\<close>, before the summary and before the periodic timer is set. A
  declaration without a command and with port 9000 is registered and probed likewise;
  when something answers on the port it becomes healthy and is published.
\<close>

theorem C3_skipped_gateway_is_registered_and_probed:
  "managedGateways (start_loop [portless_entry] init_world) = [(''g'', 0)]
   \<and> children (start_loop [portless_entry] init_world) = []
   \<and> log (start_loop [portless_entry] init_world)
       = [(LError, Some ''g'', ''stdio gateway missing command or port, skipping'')]
   \<and> startMcpGateways (loopback_platform []) (FileParsed (CfgGateways [portless_entry]))
         init_world
       = (Rejected (TypeError ''Invalid URL''), start_loop [portless_entry] init_world)
   \<and> healthCheckTimer (start_loop [portless_entry] init_world) = None
   \<and> fst (startMcpGateways (loopback_platform [''9000''])
             (FileParsed (CfgGateways [commandless_entry])) init_world) = Fulfilled
   \<and> children (snd (startMcpGateways (loopback_platform [''9000''])
             (FileParsed (CfgGateways [commandless_entry])) init_world)) = []
   \<and> map_option healthy
        (heap (snd (startMcpGateways (loopback_platform [''9000''])
                      (FileParsed (CfgGateways [commandless_entry])) init_world)) 0)
       = Some True
   \<and> getAvailableGateways
        (snd (startMcpGateways (loopback_platform [''9000''])
                (FileParsed (CfgGateways [commandless_entry])) init_world))
       = Inr [(''g'', ''http://host.docker.internal:9000/sse'')]"
proof -
  have "managedGateways (start_loop [portless_entry] init_world) = [(''g'', 0)]
   \<and> children (start_loop [portless_entry] init_world) = []
   \<and> log (start_loop [portless_entry] init_world)
       = [(LError, Some ''g'', ''stdio gateway missing command or port, skipping'')]
   \<and> healthCheckTimer (start_loop [portless_entry] init_world) = None"
    unfolding start_portless by simp
  moreover have "fst (startMcpGateways (loopback_platform [''9000''])
             (FileParsed (CfgGateways [commandless_entry])) init_world) = Fulfilled
   \<and> children (snd (startMcpGateways (loopback_platform [''9000''])
             (FileParsed (CfgGateways [commandless_entry])) init_world)) = []
   \<and> map_option healthy
        (heap (snd (startMcpGateways (loopback_platform [''9000''])
                      (FileParsed (CfgGateways [commandless_entry])) init_world)) 0)
       = Some True"
    unfolding startMcpGateways_commandless by simp
  ultimately show ?thesis
    using startMcpGateways_portless [of "[]"] getAvailableGateways_commandless
    by (simp del: start_loop.simps)
qed

subsection \<open>The published directory\<close>

lemma js_replace_absent: "\<not> occurs_in pat s \<Longrightarrow> js_replace pat rep s = s"
  by (induction s) auto

lemma js_replace_loopback:
  "js_replace ''127.0.0.1'' ''host.docker.internal'' (''http://127.0.0.1:'' @ rest)
     = ''http://host.docker.internal:'' @ rest"
  by simp

lemma getAvailableGateways_loop_spec:
  assumes "\<forall>x \<in> set xs. is_healthy w (snd x) \<longrightarrow> address_of w (snd x) \<noteq> None"
  shows "getAvailableGateways_loop xs w results =
           Inr (results @
                map (\<lambda>x. (fst x, js_replace ''127.0.0.1'' ''host.docker.internal''
                                   (js_string (address_of w (snd x)))))
                  (filter (\<lambda>x. is_healthy w (snd x)) xs))"
  using assms
proof (induction xs arbitrary: results)
  case Nil
  then show ?case by simp
next
  case (Cons x xs)
  obtain n r where x: "x = (n, r)" by (cases x)
  from Cons.prems have rest: "\<forall>x \<in> set xs. is_healthy w (snd x) \<longrightarrow> address_of w (snd x) \<noteq> None"
    by simp
  note ih = Cons.IH [OF rest]
  show ?case
  proof (cases "heap w r")
    case None
    then show ?thesis by (simp add: x ih is_healthy_def)
  next
    case (Some m)
    show ?thesis
    proof (cases "healthy m")
      case False
      with Some show ?thesis by (simp add: x ih is_healthy_def)
    next
      case True
      with Cons.prems Some x obtain u where u: "getGatewayUrl (entry m) = Some u"
        by (auto simp add: is_healthy_def address_of_def)
      with Some True show ?thesis
        by (simp add: x ih is_healthy_def address_of_def js_string_def)
    qed
  qed
qed

text \<open>
  C4 (as amended). In every state where each healthy gateway of the registry has an
  address, the directory lists exactly the healthy gateways, in registry order, and the
  address of each is its effective address with the first occurrence of \<^verbatim>\<open>127.0.0.1\<close>
  replaced by \<^verbatim>\<open>host.docker.internal\<close>, whatever the kind of the gateway. For a \<^verbatim>\<open>stdio\<close>
  gateway this replaces the loopback host and keeps port and path; the URL of an
  \<^verbatim>\<open>http\<close> gateway is published as declared when \<^verbatim>\<open>127.0.0.1\<close> does not occur in it.
\<close>

theorem C4_directory_of_healthy_gateways:
  assumes "\<forall>x \<in> set (managedGateways w). is_healthy w (snd x) \<longrightarrow> address_of w (snd x) \<noteq> None"
  shows "getAvailableGateways w = Inr (directory_spec w)
       \<and> map fst (directory_spec w)
           = map fst (filter (\<lambda>x. is_healthy w (snd x)) (managedGateways w))
       \<and> (\<forall>e. gtype e = Stdio \<longrightarrow>
              js_replace ''127.0.0.1'' ''host.docker.internal'' (js_string (getGatewayUrl e))
                = ''http://host.docker.internal:''
                    @ js_string (map_option String_of_nat (port e)) @ ''/sse'')
       \<and> (\<forall>e u. gtype e = Http \<and> url e = Some u \<and> \<not> occurs_in ''127.0.0.1'' u \<longrightarrow>
              js_replace ''127.0.0.1'' ''host.docker.internal'' (js_string (getGatewayUrl e)) = u)"
proof -
  have "getAvailableGateways w = Inr (directory_spec w)"
    using getAvailableGateways_loop_spec [OF assms, of "[]"]
    by (simp add: getAvailableGateways_def directory_spec_def)
  moreover have "map fst (directory_spec w)
           = map fst (filter (\<lambda>x. is_healthy w (snd x)) (managedGateways w))"
    by (simp add: directory_spec_def comp_def)
  moreover have "js_replace ''127.0.0.1'' ''host.docker.internal'' (js_string (getGatewayUrl e))
                = ''http://host.docker.internal:''
                    @ js_string (map_option String_of_nat (port e)) @ ''/sse''"
    if "gtype e = Stdio" for e
    using that js_replace_loopback [of "js_string (map_option String_of_nat (port e)) @ ''/sse''"]
    by (simp add: getGatewayUrl_def js_string_def)
  moreover have "js_replace ''127.0.0.1'' ''host.docker.internal'' (js_string (getGatewayUrl e)) = u"
    if "gtype e = Http \<and> url e = Some u \<and> \<not> occurs_in ''127.0.0.1'' u" for e u
    using that by (simp add: getGatewayUrl_def js_string_def js_replace_absent)
  ultimately show ?thesis by blast
qed

lemma directory_world_healthy:
  "is_healthy directory_world 0" "is_healthy directory_world (Suc 0)"
  "is_healthy directory_world 2" "\<not> is_healthy directory_world 3"
  by (simp_all add: is_healthy_def directory_world_def)

lemma directory_world_address:
  "address_of directory_world 0 = Some ''http://127.0.0.1:8080/mcp''"
  "address_of directory_world (Suc 0) = Some ''https://db.example:443''"
  "address_of directory_world 2 = Some ''http://127.0.0.1:9000/sse''"
  by (simp_all add: address_of_def directory_world_def getGatewayUrl_def js_string_def
      String_of_nat_9000)

lemma directory_world_registry:
  "managedGateways directory_world = [(''local'', 0), (''db'', 1), (''g'', 2), (''h'', 3)]"
  by (simp add: directory_world_def)

theorem C4_witness:
  "managedGateways directory_world = [(''local'', 0), (''db'', 1), (''g'', 2), (''h'', 3)]
   \<and> address_of directory_world 0 = Some ''http://127.0.0.1:8080/mcp''
   \<and> address_of directory_world 1 = Some ''https://db.example:443''
   \<and> address_of directory_world 2 = Some ''http://127.0.0.1:9000/sse''
   \<and> \<not> is_healthy directory_world 3
   \<and> getAvailableGateways directory_world =
       Inr [(''local'', ''http://host.docker.internal:8080/mcp''),
            (''db'', ''https://db.example:443''),
            (''g'', ''http://host.docker.internal:9000/sse'')]"
proof -
  have h: "\<forall>x \<in> set (managedGateways directory_world).
       is_healthy directory_world (snd x) \<longrightarrow> address_of directory_world (snd x) \<noteq> None"
    by (simp add: directory_world_registry directory_world_healthy directory_world_address)
  from C4_directory_of_healthy_gateways [OF h]
  have "getAvailableGateways directory_world = Inr (directory_spec directory_world)"
    by blast
  moreover have "directory_spec directory_world =
       [(''local'', ''http://host.docker.internal:8080/mcp''),
        (''db'', ''https://db.example:443''),
        (''g'', ''http://host.docker.internal:9000/sse'')]"
    by (simp add: directory_spec_def directory_world_registry directory_world_healthy
        directory_world_address js_string_def)
  ultimately show ?thesis
    by (simp add: directory_world_registry directory_world_healthy directory_world_address)
qed

text \<open>
  Against C4 as stated: the external endpoint declared as \<^verbatim>\<open>http://127.0.0.1:8080/mcp\<close>
  is healthy and is not published as declared.
\<close>

theorem C4_counterexample:
  "map_option entry (heap directory_world 0)
     = Some (http_entry ''local'' (Some ''http://127.0.0.1:8080/mcp''))
   \<and> map_option healthy (heap directory_world 0) = Some True
   \<and> getAvailableGateways directory_world =
       Inr [(''local'', ''http://host.docker.internal:8080/mcp''),
            (''db'', ''https://db.example:443''),
            (''g'', ''http://host.docker.internal:9000/sse'')]
   \<and> ''http://host.docker.internal:8080/mcp'' \<noteq> ''http://127.0.0.1:8080/mcp''"
  by (simp add: directory_world_def init_world_def getAvailableGateways_def getGatewayUrl_def
      js_string_def String_of_nat_9000)

subsection \<open>The registry\<close>

lemma map_of_Map_set: "map_of (Map_set k v xs) = (map_of xs)(k \<mapsto> v)"
  by (induction xs) (auto simp add: fun_eq_iff)

lemma fst_set_Map_set: "fst ` set (Map_set k v xs) = insert k (fst ` set xs)"
proof (induction xs)
  case Nil
  then show ?case by simp
next
  case (Cons x xs)
  obtain k' v' where x: "x = (k', v')" by (cases x)
  show ?case
  proof (cases "k' = k")
    case True
    with x show ?thesis by simp
  next
    case False
    with x Cons.IH show ?thesis by (simp add: insert_commute)
  qed
qed

lemma distinct_Map_set:
  "distinct (map fst xs) \<Longrightarrow> distinct (map fst (Map_set k v xs))"
proof (induction xs)
  case Nil
  then show ?case by simp
next
  case (Cons x xs)
  obtain k' v' where x: "x = (k', v')" by (cases x)
  show ?case
  proof (cases "k' = k")
    case True
    with Cons.prems x show ?thesis by simp
  next
    case False
    from Cons have "distinct (map fst (Map_set k v xs))" by simp
    moreover from Cons.prems x have "k' \<notin> fst ` set xs" by simp
    with False have "k' \<notin> fst ` set (Map_set k v xs)" by (simp add: fst_set_Map_set)
    ultimately show ?thesis using False x by simp
  qed
qed

lemma start_loop_append: "start_loop (es @ es') w = start_loop es' (start_loop es w)"
  by (induction es arbitrary: w) simp_all

lemma register_entry_registry:
  "managedGateways (register_entry e w) = Map_set (name e) (next_ref w) (managedGateways w)"
  "next_ref (register_entry e w) = Suc (next_ref w)"
  by (simp_all add: register_entry_def Let_def startGatewayProcess_def spawnSupergateway_def)

lemma start_loop_next_ref: "next_ref (start_loop es w) = next_ref w + length es"
  by (induction es arbitrary: w) (simp_all add: register_entry_registry)

lemma start_loop_distinct:
  "distinct (map fst (managedGateways w)) \<Longrightarrow>
   distinct (map fst (managedGateways (start_loop es w)))"
  by (induction es arbitrary: w) (simp_all add: register_entry_registry distinct_Map_set)

text \<open>The declaration that is the last of its name gets the registry entry.\<close>

lemma start_loop_last_wins:
  assumes "i < length es"
    and "\<forall>j. i < j \<and> j < length es \<longrightarrow> name (es ! j) \<noteq> name (es ! i)"
  shows "map_of (managedGateways (start_loop es w)) (name (es ! i)) = Some (next_ref w + i)"
  using assms
proof (induction es rule: rev_induct)
  case Nil
  then show ?case by simp
next
  case (snoc e es)
  let ?reg = "managedGateways (start_loop es w)"
  have reg: "map_of (managedGateways (start_loop (es @ [e]) w))
               = (map_of ?reg)(name e \<mapsto> next_ref w + length es)"
    by (simp add: start_loop_append register_entry_registry map_of_Map_set start_loop_next_ref)
  show ?case
  proof (cases "i = length es")
    case True
    then show ?thesis by (simp add: reg)
  next
    case False
    with snoc.prems(1) have i: "i < length es" by simp
    from snoc.prems(2) [rule_format, of "length es"] i
    have "name ((es @ [e]) ! length es) \<noteq> name ((es @ [e]) ! i)"
      by simp
    with i have ne: "name e \<noteq> name (es ! i)" by (simp add: nth_append)
    have "\<forall>j. i < j \<and> j < length es \<longrightarrow> name (es ! j) \<noteq> name (es ! i)"
    proof (intro allI impI)
      fix j assume j: "i < j \<and> j < length es"
      with snoc.prems(2) [rule_format, of j]
      have "name ((es @ [e]) ! j) \<noteq> name ((es @ [e]) ! i)" by simp
      with j i show "name (es ! j) \<noteq> name (es ! i)" by (simp add: nth_append)
    qed
    with i have "map_of ?reg (name (es ! i)) = Some (next_ref w + i)" by (rule snoc.IH)
    with ne i show ?thesis by (simp add: reg nth_append)
  qed
qed

text \<open>Every registry entry is an old one or belongs to the last declaration of its name.\<close>

lemma start_loop_registry_origin:
  assumes "map_of (managedGateways (start_loop es w)) n = Some r"
  shows "map_of (managedGateways w) n = Some r
       \<or> (\<exists>i < length es. r = next_ref w + i \<and> name (es ! i) = n
             \<and> (\<forall>j. i < j \<and> j < length es \<longrightarrow> name (es ! j) \<noteq> n))"
  using assms
proof (induction es arbitrary: r rule: rev_induct)
  case Nil
  then show ?case by simp
next
  case (snoc e es)
  let ?reg = "managedGateways (start_loop es w)"
  have reg: "map_of (managedGateways (start_loop (es @ [e]) w))
               = (map_of ?reg)(name e \<mapsto> next_ref w + length es)"
    by (simp add: start_loop_append register_entry_registry map_of_Map_set start_loop_next_ref)
  show ?case
  proof (cases "n = name e")
    case True
    with snoc.prems have "r = next_ref w + length es" by (simp add: reg)
    with True have "length es < length (es @ [e]) \<and> r = next_ref w + length es
        \<and> name ((es @ [e]) ! length es) = n
        \<and> (\<forall>j. length es < j \<and> j < length (es @ [e]) \<longrightarrow> name ((es @ [e]) ! j) \<noteq> n)"
      by auto
    then show ?thesis by blast
  next
    case False
    with snoc.prems have "map_of ?reg n = Some r" by (simp add: reg)
    from snoc.IH [OF this] show ?thesis
    proof
      assume "map_of (managedGateways w) n = Some r"
      then show ?thesis by simp
    next
      assume "\<exists>i < length es. r = next_ref w + i \<and> name (es ! i) = n
             \<and> (\<forall>j. i < j \<and> j < length es \<longrightarrow> name (es ! j) \<noteq> n)"
      then obtain i where i: "i < length es" "r = next_ref w + i" "name (es ! i) = n"
        and later: "\<forall>j. i < j \<and> j < length es \<longrightarrow> name (es ! j) \<noteq> n"
        by blast
      have "\<forall>j. i < j \<and> j < length (es @ [e]) \<longrightarrow> name ((es @ [e]) ! j) \<noteq> n"
      proof (intro allI impI)
        fix j assume j: "i < j \<and> j < length (es @ [e])"
        show "name ((es @ [e]) ! j) \<noteq> n"
        proof (cases "j = length es")
          case True
          with False show ?thesis by simp
        next
          case False
          with j have "j < length es" by simp
          with j later show ?thesis by (simp add: nth_append)
        qed
      qed
      with i have "i < length (es @ [e]) \<and> r = next_ref w + i \<and> name ((es @ [e]) ! i) = n
             \<and> (\<forall>j. i < j \<and> j < length (es @ [e]) \<longrightarrow> name ((es @ [e]) ! j) \<noteq> n)"
        by (simp add: nth_append)
      then show ?thesis by blast
    qed
  qed
qed

lemma register_entry_store:
  "heap (register_entry e w) =
     (heap w)(next_ref w \<mapsto>
        \<lparr>entry = e, proc = (if startable e then Some (next_pid w) else None),
         healthy = False, restartCount = 0, restartTimer = None\<rparr>)"
  "children (register_entry e w) =
     children w @ (if startable e then [(next_pid w, next_ref w)] else [])"
  by (auto simp add: register_entry_def startable_def Let_def startGatewayProcess_def
      spawnSupergateway_def logger_def)

lemma start_loop_object:
  assumes "i < length es"
  shows "\<exists>m. heap (start_loop es w) (next_ref w + i) = Some m \<and> entry m = es ! i
           \<and> (startable (es ! i) \<longrightarrow>
                (\<exists>p. proc m = Some p \<and> (p, next_ref w + i) \<in> set (children (start_loop es w))))"
  using assms
proof (induction es rule: rev_induct)
  case Nil
  then show ?case by simp
next
  case (snoc e es)
  let ?v = "start_loop es w"
  have s: "start_loop (es @ [e]) w = register_entry e ?v"
    by (simp add: start_loop_append)
  show ?case
  proof (cases "i = length es")
    case True
    then show ?thesis
      by (simp add: s register_entry_store start_loop_next_ref)
  next
    case False
    with snoc.prems have i: "i < length es" by simp
    from snoc.IH [OF i] obtain m where m: "heap ?v (next_ref w + i) = Some m" "entry m = es ! i"
      "startable (es ! i) \<longrightarrow> (\<exists>p. proc m = Some p \<and> (p, next_ref w + i) \<in> set (children ?v))"
      by blast
    from i have "next_ref w + i \<noteq> next_ref ?v" by (simp add: start_loop_next_ref)
    with m(1) have "heap (register_entry e ?v) (next_ref w + i) = Some m"
      by (simp add: register_entry_store)
    moreover from m(3) have "startable (es ! i) \<longrightarrow>
        (\<exists>p. proc m = Some p \<and> (p, next_ref w + i) \<in> set (children (register_entry e ?v)))"
      by (auto simp add: register_entry_store)
    ultimately show ?thesis using m(2) i by (simp add: s nth_append)
  qed
qed

lemma start_loop_dropped:
  assumes d: "distinct (map fst (managedGateways w))"
    and f: "\<forall>x \<in> set (managedGateways w). snd x < next_ref w"
    and ij: "i < j" "j < length es" "name (es ! i) = name (es ! j)"
  shows "(n, next_ref w + i) \<notin> set (managedGateways (start_loop es w))"
proof
  assume mem: "(n, next_ref w + i) \<in> set (managedGateways (start_loop es w))"
  from d have "distinct (map fst (managedGateways (start_loop es w)))"
    by (rule start_loop_distinct)
  with mem have "map_of (managedGateways (start_loop es w)) n = Some (next_ref w + i)"
    by simp
  from start_loop_registry_origin [OF this] show False
  proof
    assume "map_of (managedGateways w) n = Some (next_ref w + i)"
    then have "(n, next_ref w + i) \<in> set (managedGateways w)" by (rule map_of_SomeD)
    with f have "next_ref w + i < next_ref w" by fastforce
    then show False by simp
  next
    assume "\<exists>k < length es. next_ref w + i = next_ref w + k \<and> name (es ! k) = n
             \<and> (\<forall>j. k < j \<and> j < length es \<longrightarrow> name (es ! j) \<noteq> n)"
    then obtain k where "next_ref w + i = next_ref w + k" "name (es ! k) = n"
      and later: "\<forall>j. k < j \<and> j < length es \<longrightarrow> name (es ! j) \<noteq> n"
      by blast
    then have "name (es ! i) = n" and "\<forall>j. i < j \<and> j < length es \<longrightarrow> name (es ! j) \<noteq> n"
      by simp_all
    with ij show False by auto
  qed
qed

text \<open>
  C10. The registry is keyed by name: after the first loop of startup its keys are
  distinct, so it holds at most one object per declared name. The declaration that is
  the last of its name owns the registry entry of that name. Every declaration got an
  object of its own, and a process if it is startable; the object of a declaration that
  is followed by another one of the same name is in no registry entry, so the process
  started for it, whose handle only that object holds, is tracked by none.
\<close>

theorem C10_registry_keyed_by_name:
  assumes "distinct (map fst (managedGateways w))"
    and "\<forall>x \<in> set (managedGateways w). snd x < next_ref w"
  shows "distinct (map fst (managedGateways (start_loop es w)))
       \<and> (\<forall>i < length es.
             (\<forall>j. i < j \<and> j < length es \<longrightarrow> name (es ! j) \<noteq> name (es ! i)) \<longrightarrow>
             map_of (managedGateways (start_loop es w)) (name (es ! i)) = Some (next_ref w + i))
       \<and> (\<forall>i < length es.
             \<exists>m. heap (start_loop es w) (next_ref w + i) = Some m \<and> entry m = es ! i
               \<and> (startable (es ! i) \<longrightarrow>
                    (\<exists>p. proc m = Some p
                       \<and> (p, next_ref w + i) \<in> set (children (start_loop es w)))))
       \<and> (\<forall>i j n. i < j \<and> j < length es \<and> name (es ! i) = name (es ! j) \<longrightarrow>
             (n, next_ref w + i) \<notin> set (managedGateways (start_loop es w)))"
proof (intro conjI allI impI)
  show "distinct (map fst (managedGateways (start_loop es w)))"
    using assms(1) by (rule start_loop_distinct)
next
  fix i
  assume "i < length es"
    and "\<forall>j. i < j \<and> j < length es \<longrightarrow> name (es ! j) \<noteq> name (es ! i)"
  then show "map_of (managedGateways (start_loop es w)) (name (es ! i)) = Some (next_ref w + i)"
    by (rule start_loop_last_wins)
next
  fix i
  assume "i < length es"
  then show "\<exists>m. heap (start_loop es w) (next_ref w + i) = Some m \<and> entry m = es ! i
               \<and> (startable (es ! i) \<longrightarrow>
                    (\<exists>p. proc m = Some p
                       \<and> (p, next_ref w + i) \<in> set (children (start_loop es w))))"
    by (rule start_loop_object)
next
  fix i j n
  assume "i < j \<and> j < length es \<and> name (es ! i) = name (es ! j)"
  then show "(n, next_ref w + i) \<notin> set (managedGateways (start_loop es w))"
    using start_loop_dropped [OF assms] by blast
qed

lemma start_twins:
  "start_loop twin_entries init_world =
     \<lparr>heap = [0 \<mapsto> \<lparr>entry = stdio_entry ''g'' (Some ''echo'') (Some 9000), proc = Some 0,
                       healthy = False, restartCount = 0, restartTimer = None\<rparr>,
              1 \<mapsto> \<lparr>entry = stdio_entry ''g'' (Some ''cat'') (Some 9001), proc = Some 1,
                       healthy = False, restartCount = 0, restartTimer = None\<rparr>],
      next_ref = 2, managedGateways = [(''g'', 1)], healthCheckTimer = None,
      children = [(0, 0), (1, 1)], timers = [], intervals = [], next_pid = 2, next_tid = 0,
      signalled = [],
      log = [(LInfo, Some ''g'', ''Spawning supergateway''),
             (LInfo, Some ''g'', ''Spawning supergateway'')]\<rparr>"
  by (simp add: twin_entries_def register_entry_def init_world_def
      falsy_string_def falsy_number_def startGatewayProcess_def spawnSupergateway_def
      logger_def)

text \<open>
  Two startable declarations named \<^verbatim>\<open>g\<close>: two processes run, the registry holds the
  object of the second declaration alone, and shutdown signals the second process only.
\<close>

theorem C10_witness:
  "managedGateways init_world = []
   \<and> managedGateways (start_loop twin_entries init_world) = [(''g'', 1)]
   \<and> map_of (managedGateways (start_loop twin_entries init_world)) ''g'' = Some 1
   \<and> children (start_loop twin_entries init_world) = [(0, 0), (1, 1)]
   \<and> map_option proc (heap (start_loop twin_entries init_world) 0) = Some (Some 0)
   \<and> (''g'', 0) \<notin> set (managedGateways (start_loop twin_entries init_world))
   \<and> signalled (snd (stopMcpGateways (start_loop twin_entries init_world))) = [1]"
proof -
  have d: "distinct (map fst (managedGateways init_world))"
    and f: "\<forall>x \<in> set (managedGateways init_world). snd x < next_ref init_world"
    by (simp_all add: init_world_def)
  note inst = C10_registry_keyed_by_name [OF d f, of twin_entries]
  have len: "length twin_entries = 2" and n0: "name (twin_entries ! 0) = ''g''"
    and n1: "name (twin_entries ! 1) = ''g''"
    by (simp_all add: twin_entries_def)
  from inst have "\<forall>i j n. i < j \<and> j < length twin_entries
        \<and> name (twin_entries ! i) = name (twin_entries ! j) \<longrightarrow>
        (n, next_ref init_world + i) \<notin> set (managedGateways (start_loop twin_entries init_world))"
    by blast
  from this [rule_format, of 0 1 "''g''"] len n0 n1
  have a: "(''g'', 0) \<notin> set (managedGateways (start_loop twin_entries init_world))"
    by (simp add: init_world_def)
  have b: "signalled (snd (stopMcpGateways (start_loop twin_entries init_world))) = [1]"
    unfolding start_twins by (simp add: stopMcpGateways_def Let_def logger_def)
  have c: "managedGateways init_world = []"
    by (simp add: init_world_def)
  from a b c show ?thesis
    unfolding start_twins by simp
qed

end
